theory Spec2Isabelle
  imports Main
begin

section \<open>Strings and POSIX paths\<close>

text \<open>
  Python strings are modelled as \<open>string\<close>. \<open>str.lower()\<close> is modelled on the ASCII
  letters: the characters \<open>A\<close> .. \<open>Z\<close> (codes 65 .. 90) move to \<open>a\<close> .. \<open>z\<close>, every other
  character stays. The path functions are those of \<open>posixpath\<close>, with separator \<open>/\<close>.
\<close>

definition isupper_char :: "char \<Rightarrow> bool" where
  "isupper_char c = (65 \<le> (of_char c :: nat) \<and> (of_char c :: nat) \<le> 90)"

definition lower_char :: "char \<Rightarrow> char" where
  "lower_char c = (if isupper_char c then char_of ((of_char c :: nat) + 32) else c)"

definition lower :: "string \<Rightarrow> string" where
  "lower s = map lower_char s"

definition startswith_sep :: "string \<Rightarrow> bool" where
  "startswith_sep p = (case p of [] \<Rightarrow> False | c # _ \<Rightarrow> c = CHR ''/'')"

definition endswith_sep :: "string \<Rightarrow> bool" where
  "endswith_sep p = (p \<noteq> [] \<and> last p = CHR ''/'')"

text \<open>\<open>os.path.join(a, b)\<close>: an absolute \<open>b\<close> replaces \<open>a\<close>; otherwise \<open>b\<close> is appended,
  after one separator unless \<open>a\<close> is empty or already ends with one.\<close>

definition path_join :: "string \<Rightarrow> string \<Rightarrow> string" where
  "path_join a b =
     (if startswith_sep b then b
      else if a = [] \<or> endswith_sep a then a @ b
      else a @ ''/'' @ b)"

text \<open>\<open>os.path.join(*segments)\<close> for a non-empty argument list: the first argument is
  the start, the others are joined to it from left to right.\<close>

definition path_join_list :: "string list \<Rightarrow> string" where
  "path_join_list segs = foldl path_join (hd segs) (tl segs)"

text \<open>\<open>'/'.join(segments)\<close>, the plain separator join.\<close>

fun join_sep :: "string list \<Rightarrow> string" where
  "join_sep [] = []"
| "join_sep [x] = x"
| "join_sep (x # y # ys) = x @ ''/'' @ join_sep (y # ys)"

text \<open>\<open>path.split('/')\<close>: the pieces between separators, empty pieces included.\<close>

fun split_sep :: "string \<Rightarrow> string list" where
  "split_sep [] = [[]]"
| "split_sep (c # cs) =
     (if c = CHR ''/'' then [] # split_sep cs
      else (case split_sep cs of [] \<Rightarrow> [[c]] | x # xs \<Rightarrow> (c # x) # xs))"

text \<open>The component loop of \<open>posixpath.normpath\<close>; \<open>init\<close> is the number of initial
  slashes kept (0, 1 or 2), \<open>new_comps\<close> the components kept so far.\<close>

fun norm_comps :: "nat \<Rightarrow> string list \<Rightarrow> string list \<Rightarrow> string list" where
  "norm_comps init [] new_comps = new_comps"
| "norm_comps init (cmp # comps) new_comps =
     (if cmp = [] \<or> cmp = ''.'' then norm_comps init comps new_comps
      else if cmp \<noteq> ''..'' \<or> (init = 0 \<and> new_comps = [])
              \<or> (new_comps \<noteq> [] \<and> last new_comps = ''..'')
        then norm_comps init comps (new_comps @ [cmp])
      else if new_comps \<noteq> [] then norm_comps init comps (butlast new_comps)
      else norm_comps init comps new_comps)"

definition initial_slashes :: "string \<Rightarrow> nat" where
  "initial_slashes p =
     (if startswith_sep p
      then (if take 2 p = ''//'' \<and> take 3 p \<noteq> ''///'' then 2 else 1)
      else 0)"

definition normpath :: "string \<Rightarrow> string" where
  "normpath p =
     (if p = [] then ''.''
      else let init = initial_slashes p;
               joined = join_sep (norm_comps init (split_sep p) []);
               res = (if init > 0 then replicate init (CHR ''/'') @ joined else joined)
           in if res = [] then ''.'' else res)"

text \<open>\<open>posixpath.dirname\<close>: everything up to the last separator, with trailing separators
  stripped unless nothing else is left.\<close>

definition dirname :: "string \<Rightarrow> string" where
  "dirname p =
     (let head = rev (dropWhile (\<lambda>c. c \<noteq> CHR ''/'') (rev p))
      in if head \<noteq> [] \<and> head \<noteq> replicate (length head) (CHR ''/'')
         then rev (dropWhile (\<lambda>c. c = CHR ''/'') (rev head))
         else head)"

text \<open>The directories \<open>os.makedirs\<close> creates for a path: the path itself and every proper
  prefix of it that stands before a separator.\<close>

fun path_prefixes :: "string \<Rightarrow> string \<Rightarrow> string list" where
  "path_prefixes acc [] = [acc]"
| "path_prefixes acc (c # cs) =
     (if c = CHR ''/'' \<and> acc \<noteq> [] then acc # path_prefixes (acc @ [c]) cs
      else path_prefixes (acc @ [c]) cs)"


section \<open>The world: file system and error stream\<close>

text \<open>
  The state the checkout changes is the file system and the error stream. Directories
  and files are keyed by the path string as the program passes it (two spellings of one
  directory are two keys); \<open>cwd\<close> is the absolute working directory. An exception leaves
  the world as it is at the point of the raise, so every operation returns the world
  together with either the exception or the value.
\<close>

record world =
  cwd :: string
  dirs :: "string set"
  files :: "string \<rightharpoonup> string"
  stderr :: "string list"

datatype exception =
    KeyError
  | TypeError
  | FileExistsError
  | FileNotFoundError
  | IsADirectoryError
  | NotADirectoryError
  | RemoteError string

type_synonym 'a result = "(exception + 'a) \<times> world"

definition bind :: "'a result \<Rightarrow> ('a \<Rightarrow> world \<Rightarrow> 'b result) \<Rightarrow> 'b result" where
  "bind r f = (case r of (Inl e, w) \<Rightarrow> (Inl e, w) | (Inr x, w) \<Rightarrow> f x w)"

definition isdir :: "string \<Rightarrow> world \<Rightarrow> bool" where
  "isdir p w = (p \<in> dirs w)"

definition abspath :: "world \<Rightarrow> string \<Rightarrow> string" where
  "abspath w p = normpath (if startswith_sep p then p else path_join (cwd w) p)"

text \<open>\<open>os.makedirs(p)\<close> (without \<open>exist_ok\<close>): fails when \<open>p\<close> is there already, as a
  directory or as a file, or when a prefix of it is a regular file.\<close>

definition makedirs :: "string \<Rightarrow> world \<Rightarrow> unit result" where
  "makedirs p w =
     (if p = [] then (Inl FileNotFoundError, w)
      else if p \<in> dirs w \<or> files w p \<noteq> None then (Inl FileExistsError, w)
      else if list_ex (\<lambda>q. files w q \<noteq> None) (path_prefixes [] p)
        then (Inl NotADirectoryError, w)
      else (Inr (), w\<lparr>dirs := dirs w \<union> set (path_prefixes [] p)\<rparr>))"

text \<open>\<open>open(p, 'w')\<close>: creates the file or truncates it. It fails on a directory and when
  the directory part of \<open>p\<close> is not a directory; a path without directory part lies in
  the working directory.\<close>

definition open_w :: "string \<Rightarrow> world \<Rightarrow> unit result" where
  "open_w p w =
     (if p = [] then (Inl FileNotFoundError, w)
      else if p \<in> dirs w then (Inl IsADirectoryError, w)
      else if dirname p \<noteq> [] \<and> dirname p \<notin> dirs w
        then (Inl (if files w (dirname p) \<noteq> None then NotADirectoryError
                   else FileNotFoundError), w)
      else (Inr (), w\<lparr>files := (files w)(p \<mapsto> [])\<rparr>))"

definition write_text :: "string \<Rightarrow> string \<Rightarrow> world \<Rightarrow> world" where
  "write_text p s w = w\<lparr>files := (files w)(p \<mapsto> s)\<rparr>"

definition print_stderr :: "string \<Rightarrow> world \<Rightarrow> world" where
  "print_stderr line w = w\<lparr>stderr := stderr w @ [line]\<rparr>"


section \<open>Collaborators\<close>

text \<open>
  The remote protocol client (\<open>sap.adt\<close>) and the platform helpers (\<open>sap.platform\<close>) are
  not part of the checkout module; they are parameters. A fetch either raises or returns
  its value, and reads only the remote system.
\<close>

record adt_object =
  obj_typ :: string
  obj_name :: string

record clas =
  clas_name :: string
  clas_active :: string
  clas_master_language :: string
  clas_description :: string
  clas_modeled :: bool
  clas_fix_point_arithmetic :: bool

record vseoclass =
  CLSNAME :: string
  VERSION :: string
  LANGU :: string
  DESCRIPT :: string
  STATE :: string
  CLSCCINCL :: string
  FIXPT :: string
  UNICODE :: string

text \<open>Modelled from the spec: the repository metadata record \<open>DOT_ABAP_GIT\<close>, of which
  the checkout sets the starting folder only.\<close>

record dot_abap_git =
  STARTING_FOLDER :: string

definition for_new_repo :: "string \<Rightarrow> dot_abap_git" where
  "for_new_repo sf = \<lparr>STARTING_FOLDER = sf\<rparr>"

datatype 'a gen = Stop | Raise exception | Yield 'a "'a gen"

type_synonym package_visit = "string list \<times> string list \<times> adt_object list"

record connection =
  class_fetch :: "string \<Rightarrow> exception + clas"
  class_text :: "string \<Rightarrow> exception + string"
  class_definitions_text :: "string \<Rightarrow> exception + string"
  class_implementations_text :: "string \<Rightarrow> exception + string"
  class_test_classes_text :: "string \<Rightarrow> exception + string"
  program_text :: "string \<Rightarrow> exception + string"
  interface_text :: "string \<Rightarrow> exception + string"
  package_walk :: "string \<Rightarrow> package_visit gen"

record platform =
  iso_code_to_sap_code :: "string \<Rightarrow> exception + string"
  xml_writer :: "string \<Rightarrow> vseoclass \<Rightarrow> exception + string"
  to_xml :: "dot_abap_git \<Rightarrow> exception + string"


section \<open>The checkout module\<close>

definition build_filename :: "string \<Rightarrow> string \<Rightarrow> string \<Rightarrow> string option \<Rightarrow> string" where
  "build_filename object_name typsfx fileext destdir =
     (let filename = lower (object_name @ typsfx @ ''.'' @ fileext)
      in case destdir of None \<Rightarrow> filename | Some d \<Rightarrow> path_join d filename)"

text \<open>The file is opened (and so created or truncated) before the serializer runs.\<close>

definition dump_attributes_to_file ::
  "platform \<Rightarrow> string \<Rightarrow> vseoclass \<Rightarrow> string \<Rightarrow> string \<Rightarrow> string option \<Rightarrow> world \<Rightarrow> unit result" where
  "dump_attributes_to_file pf object_name abap_attributes typsfx ag_serializer destdir w =
     (let filename = build_filename object_name typsfx ''xml'' destdir
      in bind (open_w filename w) (\<lambda>_ w1.
           case xml_writer pf ag_serializer abap_attributes of
             Inl e \<Rightarrow> (Inl e, w1)
           | Inr x \<Rightarrow> (Inr (), write_text filename x w1)))"

text \<open>\<open>source_text\<close> is the outcome of reading \<open>source_object.text\<close>, which the source
  evaluates after the file is open.\<close>

definition download_abap_source ::
  "string \<Rightarrow> exception + string \<Rightarrow> string \<Rightarrow> string option \<Rightarrow> world \<Rightarrow> unit result" where
  "download_abap_source object_name source_text typsfx destdir w =
     (let filename = build_filename object_name typsfx ''abap'' destdir
      in bind (open_w filename w) (\<lambda>_ w1.
           case source_text of
             Inl e \<Rightarrow> (Inl e, w1)
           | Inr t \<Rightarrow> (Inr (), write_text filename t w1)))"

definition build_class_abap_attributes :: "platform \<Rightarrow> clas \<Rightarrow> exception + vseoclass" where
  "build_class_abap_attributes pf c =
     (case iso_code_to_sap_code pf (clas_master_language c) of
        Inl e \<Rightarrow> Inl e
      | Inr langu \<Rightarrow> Inr
          \<lparr>CLSNAME = clas_name c,
           VERSION = (if clas_active c = ''active'' then ''1'' else ''0''),
           LANGU = langu,
           DESCRIPT = clas_description c,
           STATE = (if clas_modeled c then ''0'' else ''1''),
           CLSCCINCL = ''X'',
           FIXPT = (if clas_fix_point_arithmetic c then ''X'' else '' ''),
           UNICODE = ''X''\<rparr>)"

definition checkout_class ::
  "platform \<Rightarrow> connection \<Rightarrow> string \<Rightarrow> string option \<Rightarrow> world \<Rightarrow> unit result" where
  "checkout_class pf conn name destdir w =
     (case class_fetch conn name of
        Inl e \<Rightarrow> (Inl e, w)
      | Inr c \<Rightarrow>
          bind (download_abap_source name (class_text conn name) ''.clas'' destdir w) (\<lambda>_ w1.
          bind (download_abap_source name (class_definitions_text conn name)
                  ''.clas.locals_def'' destdir w1) (\<lambda>_ w2.
          bind (download_abap_source name (class_implementations_text conn name)
                  ''.clas.locals_imp'' destdir w2) (\<lambda>_ w3.
          bind (download_abap_source name (class_test_classes_text conn name)
                  ''.clas.testclasses'' destdir w3) (\<lambda>_ w4.
          case build_class_abap_attributes pf c of
            Inl e \<Rightarrow> (Inl e, w4)
          | Inr v \<Rightarrow>
              dump_attributes_to_file pf name v ''.clas'' ''LCL_OBJECT_CLAS'' destdir w4)))))"

definition checkout_program ::
  "platform \<Rightarrow> connection \<Rightarrow> string \<Rightarrow> string option \<Rightarrow> world \<Rightarrow> unit result" where
  "checkout_program pf conn name destdir w =
     download_abap_source name (program_text conn name) ''.prog'' destdir w"

definition checkout_interface ::
  "platform \<Rightarrow> connection \<Rightarrow> string \<Rightarrow> string option \<Rightarrow> world \<Rightarrow> unit result" where
  "checkout_interface pf conn name destdir w =
     download_abap_source name (interface_text conn name) ''.intf'' destdir w"

type_synonym checkouter =
  "platform \<Rightarrow> connection \<Rightarrow> string \<Rightarrow> string option \<Rightarrow> world \<Rightarrow> unit result"

definition checkouters :: "string \<rightharpoonup> checkouter" where
  "checkouters = map_of
     [(''PROG/P'', checkout_program),
      (''CLAS/OC'', checkout_class),
      (''INTF/OI'', checkout_interface)]"

definition unsupported_line :: "adt_object \<Rightarrow> string" where
  "unsupported_line obj = ''Unsupported object: '' @ obj_typ obj @ '' '' @ obj_name obj"

text \<open>The body of the \<open>try\<close>: the dictionary lookup raises \<open>KeyError\<close> on a missing key,
  otherwise the checkouter found runs.\<close>

definition checkout_try ::
  "platform \<Rightarrow> connection \<Rightarrow> string option \<Rightarrow> adt_object \<Rightarrow> world \<Rightarrow> unit result" where
  "checkout_try pf conn destdir obj w =
     (case checkouters (obj_typ obj) of
        None \<Rightarrow> (Inl KeyError, w)
      | Some f \<Rightarrow> f pf conn (obj_name obj) destdir w)"

text \<open>One iteration of the loop: the \<open>try\<close> with its \<open>except KeyError\<close> handler, which sees
  every \<open>KeyError\<close> raised inside the \<open>try\<close>.\<close>

definition checkout_object ::
  "platform \<Rightarrow> connection \<Rightarrow> string option \<Rightarrow> adt_object \<Rightarrow> world \<Rightarrow> unit result" where
  "checkout_object pf conn destdir obj w =
     (case checkout_try pf conn destdir obj w of
        (Inl e, w1) \<Rightarrow>
          (if e = KeyError then (Inr (), print_stderr (unsupported_line obj) w1)
           else (Inl e, w1))
      | (Inr u, w1) \<Rightarrow> (Inr u, w1))"

fun checkout_loop ::
  "platform \<Rightarrow> connection \<Rightarrow> string option \<Rightarrow> adt_object list \<Rightarrow> world \<Rightarrow> unit result" where
  "checkout_loop pf conn destdir [] w = (Inr (), w)"
| "checkout_loop pf conn destdir (obj # objs) w =
     bind (checkout_object pf conn destdir obj w) (\<lambda>_ w1.
       checkout_loop pf conn destdir objs w1)"

text \<open>\<open>os.path.isdir(None)\<close> raises \<open>TypeError\<close>.\<close>

definition checkout_objects ::
  "platform \<Rightarrow> connection \<Rightarrow> adt_object list \<Rightarrow> string option \<Rightarrow> world \<Rightarrow> unit result" where
  "checkout_objects pf conn objects destdir w =
     (case destdir of
        None \<Rightarrow> (Inl TypeError, w)
      | Some d \<Rightarrow>
          bind (if \<not> isdir d w then makedirs d w else (Inr (), w)) (\<lambda>_ w1.
            checkout_loop pf conn destdir objects w1))"

record args =
  arg_name :: string
  arg_directory :: "string option"
  arg_starting_folder :: string
  arg_recursive :: bool

definition make_repo_dir_for_package :: "platform \<Rightarrow> args \<Rightarrow> world \<Rightarrow> string result" where
  "make_repo_dir_for_package pf a w =
     (let repo_dir0 = (case arg_directory a of
                         None \<Rightarrow> arg_name a
                       | Some d \<Rightarrow> if d = [] then arg_name a else d);
          repo_dir = abspath w repo_dir0
      in bind (if \<not> isdir repo_dir w then makedirs repo_dir w else (Inr (), w)) (\<lambda>_ w1.
           let dot_abapgit = for_new_repo (''/'' @ arg_starting_folder a @ ''/'');
               repo_file = path_join repo_dir ''.abapgit.xml''
           in bind (open_w repo_file w1) (\<lambda>_ w2.
                case to_xml pf dot_abapgit of
                  Inl e \<Rightarrow> (Inl e, w2)
                | Inr x \<Rightarrow> (Inr repo_dir, write_text repo_file x w2))))"

definition package_destdir :: "world \<Rightarrow> string \<Rightarrow> string list \<Rightarrow> string" where
  "package_destdir w source_code_dir package_name_hier =
     (let destdir = abspath w source_code_dir
      in if length package_name_hier = 1
           then path_join destdir (lower (hd package_name_hier))
         else if length package_name_hier > 1
           then path_join destdir (lower (path_join_list package_name_hier))
         else destdir)"





section \<open>Visiting packages, as the specification words it\<close>



section \<open>Replaying a run\<close>

text \<open>
  An operation replays when its outcome does not depend on the files that exist: a run
  that succeeds (or ends in \<open>KeyError\<close>) from a world \<open>w\<close> ends the same way from every world
  \<open>t\<close> with the same directories, the directories stay as they are, and both runs lay the
  same files \<open>m\<close> over the files they found.
\<close>

definition replays :: "(world \<Rightarrow> unit result) \<Rightarrow> bool" where
  "replays f =
     (\<forall>w w' t r. f w = (r, w') \<and> (r = Inr () \<or> r = Inl KeyError) \<and> dirs t = dirs w \<longrightarrow>
        dirs w' = dirs w \<and>
        (\<exists>m t'. files w' = files w ++ m \<and> f t = (r, t') \<and> dirs t' = dirs t \<and>
           files t' = files t ++ m))"

text \<open>An operation keeps the directories when, whatever its outcome, the directories and
  the working directory are afterwards what they were.\<close>

definition keeps_dirs :: "(world \<Rightarrow> 'a result) \<Rightarrow> bool" where
  "keeps_dirs f = (\<forall>w. dirs (snd (f w)) = dirs w \<and> cwd (snd (f w)) = cwd w)"


section \<open>Example collaborators\<close>

text \<open>A remote system holding one class, one program and one interface, a platform
  whose serializers render fixed texts, and a world with one existing directory. The
  theorems below are instantiated on them.\<close>

definition example_clas :: clas where
  "example_clas =
     \<lparr>clas_name = ''ZCL_DEMO'', clas_active = ''active'', clas_master_language = ''EN'',
      clas_description = ''Demo'', clas_modeled = False, clas_fix_point_arithmetic = True\<rparr>"

definition example_platform :: platform where
  "example_platform =
     \<lparr>iso_code_to_sap_code = (\<lambda>iso. if iso = ''EN'' then Inr ''E'' else Inl (RemoteError ''iso'')),
      xml_writer = (\<lambda>serializer v. Inr (''<'' @ serializer @ ''>'' @ CLSNAME v)),
      to_xml = (\<lambda>d. Inr (''<DATA>'' @ STARTING_FOLDER d))\<rparr>"

definition example_world :: world where
  "example_world = \<lparr>cwd = ''/home'', dirs = {''/'', ''/home''}, files = Map.empty, stderr = []\<rparr>"

definition example_connection :: connection where
  "example_connection =
     \<lparr>class_fetch = (\<lambda>n. if n = ''ZCL_DEMO'' then Inr example_clas
                          else Inl (RemoteError ''not found'')),
      class_text = (\<lambda>n. Inr (''class '' @ n)),
      class_definitions_text = (\<lambda>n. Inr ''defs''),
      class_implementations_text = (\<lambda>n. Inr ''imps''),
      class_test_classes_text = (\<lambda>n. Inr ''tests''),
      program_text = (\<lambda>n. Inr (''report '' @ n)),
      interface_text = (\<lambda>n. Inr (''interface '' @ n)),
      package_walk = (\<lambda>n.
        Yield ([n], [''SUB''],
               [\<lparr>obj_typ = ''PROG/P'', obj_name = ''ZPROG''\<rparr>,
                \<lparr>obj_typ = ''TABL/DT'', obj_name = ''ZTAB''\<rparr>])
          (Yield ([n, ''SUB''], [], [\<lparr>obj_typ = ''INTF/OI'', obj_name = ''ZIF''\<rparr>]) Stop))\<rparr>"


definition example_objects :: "adt_object list" where
  "example_objects =
     [\<lparr>obj_typ = ''PROG/P'', obj_name = ''ZPROG''\<rparr>,
      \<lparr>obj_typ = ''TABL/DT'', obj_name = ''ZTAB''\<rparr>]"

definition example_args :: args where
  "example_args =
     \<lparr>arg_name = ''ZPKG'', arg_directory = None, arg_starting_folder = ''src'',
      arg_recursive = False\<rparr>"


text \<open>A remote system whose program source read raises \<open>KeyError\<close>.\<close>

definition keyerror_connection :: connection where
  "keyerror_connection = example_connection\<lparr>program_text := (\<lambda>n. Inl KeyError)\<rparr>"


text \<open>A remote system that knows a class under every name, and a world in which
  \<open>/tmp\<close> and a repository directory exist.\<close>

definition namespace_connection :: connection where
  "namespace_connection = example_connection\<lparr>class_fetch := (\<lambda>n. Inr example_clas)\<rparr>"

definition tmp_world :: world where
  "tmp_world = example_world\<lparr>dirs := {''/'', ''/home'', ''/home/repo'', ''/tmp''}\<rparr>"

section \<open>File names and directories\<close>

lemma lower_char_not_upper: "\<not> isupper_char (lower_char c)"
  by (auto simp: lower_char_def isupper_char_def)

lemma lower_char_idem: "lower_char (lower_char c) = lower_char c"
  using lower_char_not_upper[of c] by (simp add: lower_char_def[of "lower_char c"])

lemma lower_idem: "lower (lower s) = lower s"
  by (simp add: lower_def lower_char_idem)

lemma lower_append: "lower (a @ b) = lower a @ lower b"
  by (simp add: lower_def)

lemma lower_no_upper: "list_all (\<lambda>c. \<not> isupper_char c) (lower s)"
  by (simp add: lower_def list_all_iff lower_char_not_upper)

text \<open>
  C5. \<open>build_filename\<close> returns the lower-casing of \<open>name @ suffix @ ''.'' @ ext\<close>, joined to
  the destination directory when one is given. The file name holds no upper-case letter,
  and the casing of the object name supplied makes no difference.
\<close>

theorem build_filename_lower:
  "build_filename object_name typsfx fileext None = lower (object_name @ typsfx @ ''.'' @ fileext)
   \<and> build_filename object_name typsfx fileext (Some d)
       = path_join d (lower (object_name @ typsfx @ ''.'' @ fileext))
   \<and> list_all (\<lambda>c. \<not> isupper_char c) (build_filename object_name typsfx fileext None)
   \<and> build_filename (lower object_name) typsfx fileext destdir
       = build_filename object_name typsfx fileext destdir"
  by (simp add: build_filename_def lower_no_upper lower_append lower_idem)

theorem build_filename_lower_witness:
  "build_filename ''MyClass'' ''.clas'' ''abap'' None = ''myclass.clas.abap''
   \<and> build_filename ''MyClass'' ''.clas'' ''abap'' (Some ''src/my.pkg'')
       = ''src/my.pkg/myclass.clas.abap''"
proof -
  have l: "lower (''MyClass'' @ ''.clas'' @ ''.'' @ ''abap'') = ''myclass.clas.abap''"
    by code_simp
  have j: "path_join ''src/my.pkg'' ''myclass.clas.abap'' = ''src/my.pkg/myclass.clas.abap''"
    by code_simp
  show ?thesis
    using build_filename_lower[of "''MyClass''" "''.clas''" "''abap''" "''src/my.pkg''"]
    by (simp only: l j)
qed

lemma foldl_path_join_plain:
  "a \<noteq> [] \<Longrightarrow> \<not> endswith_sep a \<Longrightarrow>
   list_all (\<lambda>s. s \<noteq> [] \<and> \<not> startswith_sep s \<and> \<not> endswith_sep s) xs \<Longrightarrow>
   foldl path_join a xs = join_sep (a # xs)"
proof (induction xs arbitrary: a)
  case Nil
  then show ?case by simp
next
  case (Cons x xs)
  have step: "path_join a x = a @ ''/'' @ x"
    using Cons.prems by (simp add: path_join_def)
  have ne: "a @ ''/'' @ x \<noteq> []" using Cons.prems by simp
  have ends: "\<not> endswith_sep (a @ ''/'' @ x)"
    using Cons.prems by (auto simp: endswith_sep_def)
  have rest: "list_all (\<lambda>s. s \<noteq> [] \<and> \<not> startswith_sep s \<and> \<not> endswith_sep s) xs"
    using Cons.prems by simp
  have "foldl path_join (a @ ''/'' @ x) xs = join_sep ((a @ ''/'' @ x) # xs)"
    by (rule Cons.IH[OF ne ends rest])
  moreover have "join_sep ((a @ ''/'' @ x) # xs) = join_sep (a # x # xs)"
    by (cases xs) simp_all
  ultimately show ?case by (simp add: step)
qed

lemma normpath_nonempty: "normpath p \<noteq> []"
  by (simp add: normpath_def Let_def)

lemma abspath_nonempty: "abspath w p \<noteq> []"
  by (simp add: abspath_def normpath_nonempty)

lemma lower_char_sep: "(lower_char c = CHR ''/'') = (c = CHR ''/'')"
proof
  assume a: "lower_char c = CHR ''/''"
  show "c = CHR ''/''"
  proof (cases "isupper_char c")
    case True
    then have "of_char (lower_char c) = (of_char c + 32 :: nat)"
      by (simp add: lower_char_def isupper_char_def)
    moreover have "(of_char (CHR ''/'') :: nat) = 47" by simp
    ultimately show ?thesis using a True by (simp add: isupper_char_def)
  next
    case False
    then show ?thesis using a by (simp add: lower_char_def)
  qed
next
  assume "c = CHR ''/''"
  then show "lower_char c = CHR ''/''" by (simp add: lower_char_def isupper_char_def)
qed

lemma startswith_sep_lower_eq: "startswith_sep (lower s) = startswith_sep s"
  by (cases s) (simp_all add: startswith_sep_def lower_def lower_char_sep)

lemma sep_in_lower: "(CHR ''/'' \<in> set (lower s)) = (CHR ''/'' \<in> set s)"
proof -
  have "(CHR ''/'' \<in> lower_char ` set s) = (\<exists>c\<in>set s. lower_char c = CHR ''/'')"
    by (metis (no_types) image_iff)
  then show ?thesis by (simp add: lower_def lower_char_sep)
qed

lemma startswith_sep_join_sep:
  "x \<noteq> [] \<Longrightarrow> startswith_sep (join_sep (x # xs)) = startswith_sep x"
  by (cases xs; cases x) (simp_all add: startswith_sep_def)

lemma path_join_relative:
  "a \<noteq> [] \<Longrightarrow> \<not> startswith_sep b \<Longrightarrow>
     path_join a b = a @ (if endswith_sep a then [] else ''/'') @ b"
  by (simp add: path_join_def)

lemma package_destdir_plain:
  assumes "segs \<noteq> []"
    and "list_all (\<lambda>s. s \<noteq> [] \<and> \<not> startswith_sep s \<and> \<not> endswith_sep s) segs"
  shows "package_destdir w base segs
     = abspath w base @ (if endswith_sep (abspath w base) then [] else ''/'')
         @ lower (join_sep segs)"
proof -
  from assms obtain x xs where segs: "segs = x # xs" by (cases segs) auto
  have "path_join_list segs = join_sep segs"
    using assms unfolding segs path_join_list_def
    by (simp add: foldl_path_join_plain)
  then have d: "package_destdir w base segs = path_join (abspath w base) (lower (join_sep segs))"
    unfolding segs by (cases xs) (simp_all add: package_destdir_def)
  have "\<not> startswith_sep (lower (join_sep segs))"
    using assms unfolding segs by (simp add: startswith_sep_lower_eq startswith_sep_join_sep)
  then show ?thesis
    unfolding d using abspath_nonempty[of w base] by (rule path_join_relative[rotated])
qed

text \<open>
  C4. The destination is \<open>os.path.join\<close> of the absolute base directory with the
  lower-cased segment (one segment) or with the lower-casing of \<open>os.path.join\<close> of the
  segments (more than one). When no segment is empty, starts or ends with the separator,
  this is the base directory, one separator (none when the base ends with one) and the
  lower-casing of the plain separator join of the segments.
\<close>

theorem package_destdir_resolution:
  "(length segs = 1 \<longrightarrow>
      package_destdir w base segs = path_join (abspath w base) (lower (hd segs)))
   \<and> (length segs > 1 \<longrightarrow>
      package_destdir w base segs = path_join (abspath w base) (lower (path_join_list segs)))
   \<and> (segs \<noteq> [] \<and> list_all (\<lambda>s. s \<noteq> [] \<and> \<not> startswith_sep s \<and> \<not> endswith_sep s) segs \<longrightarrow>
      package_destdir w base segs = path_join (abspath w base) (lower (join_sep segs)))
   \<and> (segs \<noteq> [] \<and> list_all (\<lambda>s. s \<noteq> [] \<and> \<not> startswith_sep s \<and> \<not> endswith_sep s) segs \<longrightarrow>
      package_destdir w base segs
        = abspath w base @ (if endswith_sep (abspath w base) then [] else ''/'')
            @ lower (join_sep segs))"
proof (intro conjI impI)
  assume "length segs = 1"
  then show "package_destdir w base segs = path_join (abspath w base) (lower (hd segs))"
    by (simp add: package_destdir_def)
next
  assume "length segs > 1"
  then show "package_destdir w base segs = path_join (abspath w base) (lower (path_join_list segs))"
    by (simp add: package_destdir_def)
next
  assume a: "segs \<noteq> [] \<and> list_all (\<lambda>s. s \<noteq> [] \<and> \<not> startswith_sep s \<and> \<not> endswith_sep s) segs"
  then obtain x xs where segs: "segs = x # xs" by (cases segs) auto
  have "path_join_list segs = join_sep segs"
    using a unfolding segs path_join_list_def
    by (simp add: foldl_path_join_plain)
  then show "package_destdir w base segs = path_join (abspath w base) (lower (join_sep segs))"
    unfolding segs by (cases xs) (simp_all add: package_destdir_def)
next
  assume "segs \<noteq> [] \<and> list_all (\<lambda>s. s \<noteq> [] \<and> \<not> startswith_sep s \<and> \<not> endswith_sep s) segs"
  then show "package_destdir w base segs
        = abspath w base @ (if endswith_sep (abspath w base) then [] else ''/'')
            @ lower (join_sep segs)"
    using package_destdir_plain by blast
qed

theorem package_destdir_resolution_witness:
  "package_destdir \<lparr>cwd = ''/home'', dirs = {}, files = Map.empty, stderr = []\<rparr> ''base'' [''ROOT'']
     = ''/home/base/root''
   \<and> package_destdir \<lparr>cwd = ''/home'', dirs = {}, files = Map.empty, stderr = []\<rparr> ''base'' [''ROOT'', ''SUB'']
     = ''/home/base/root/sub''"
proof -
  let ?w = "\<lparr>cwd = ''/home'', dirs = {}, files = Map.empty, stderr = []\<rparr>"
  have abs: "abspath ?w ''base'' = ''/home/base''" by code_simp
  have j1: "path_join ''/home/base'' (lower (hd [''ROOT''])) = ''/home/base/root''" by code_simp
  have j2: "path_join ''/home/base'' (lower (join_sep [''ROOT'', ''SUB''])) = ''/home/base/root/sub''"
    by code_simp
  have wf: "[''ROOT'', ''SUB''] \<noteq> [] \<and>
    list_all (\<lambda>s. s \<noteq> [] \<and> \<not> startswith_sep s \<and> \<not> endswith_sep s) [''ROOT'', ''SUB'']"
    by code_simp
  have l1: "length [''ROOT''] = 1" by simp
  have r1: "package_destdir ?w ''base'' [''ROOT''] = ''/home/base/root''"
    using package_destdir_resolution[of "[''ROOT'']" ?w "''base''", THEN conjunct1, rule_format, OF l1]
    by (simp only: abs j1)
  have r2: "package_destdir ?w ''base'' [''ROOT'', ''SUB''] = ''/home/base/root/sub''"
    using package_destdir_resolution[of "[''ROOT'', ''SUB'']" ?w "''base''",
        THEN conjunct2, THEN conjunct2, THEN conjunct1, rule_format, OF wf]
    by (simp only: abs j2)
  have j4: "''/home/base'' @ (if endswith_sep ''/home/base'' then [] else ''/'')
      @ lower (join_sep [''ROOT'', ''SUB'']) = ''/home/base/root/sub''"
    by code_simp
  have r4: "package_destdir ?w ''base'' [''ROOT'', ''SUB''] = ''/home/base/root/sub''"
    using package_destdir_resolution[of "[''ROOT'', ''SUB'']" ?w "''base''",
        THEN conjunct2, THEN conjunct2, THEN conjunct2, rule_format, OF wf]
    by (simp only: abs j4)
  have l2: "length [''ROOT'', ''SUB''] > 1" by simp
  have j3: "path_join ''/home/base'' (lower (path_join_list [''ROOT'', ''SUB'']))
      = ''/home/base/root/sub''"
    by code_simp
  have r3: "package_destdir ?w ''base'' [''ROOT'', ''SUB''] = ''/home/base/root/sub''"
    using package_destdir_resolution[of "[''ROOT'', ''SUB'']" ?w "''base''",
        THEN conjunct2, THEN conjunct1, rule_format, OF l2]
    by (simp only: abs j3)
  show ?thesis using r1 r2 r3 r4 by (intro conjI)
qed

text \<open>A segment that starts with the separator (a package name with a namespace
  prefix) makes \<open>os.path.join\<close> drop what stands before it, the base directory included:
  the destination is then not the base directory followed by the lower-cased join.\<close>

theorem package_destdir_counterexample:
  "package_destdir example_world ''/home/repo/src'' [''/NS/PKG''] = ''/ns/pkg''
   \<and> abspath example_world ''/home/repo/src'' = ''/home/repo/src''
   \<and> package_destdir example_world ''/home/repo/src'' [''/NS/PKG'']
       \<noteq> abspath example_world ''/home/repo/src'' @ ''/'' @ lower ''/NS/PKG''
   \<and> package_destdir example_world ''/home/repo/src'' [''ROOT'', ''/NS/SUB''] = ''/ns/sub''
   \<and> package_destdir example_world ''/home/repo/src'' [''ROOT'', ''/NS/SUB'']
       \<noteq> abspath example_world ''/home/repo/src'' @ ''/'' @ lower (join_sep [''ROOT'', ''/NS/SUB''])"
  by code_simp


section \<open>Class attributes\<close>

text \<open>
  C7. In the attribute record built from a fetched class, \<open>VERSION\<close> is \<open>1\<close> exactly when
  the class is \<open>active\<close> and \<open>0\<close> otherwise, \<open>FIXPT\<close> is \<open>X\<close> exactly when the class has
  fixed point arithmetic and a blank otherwise, \<open>STATE\<close> is \<open>0\<close> for a modeled class and
  \<open>1\<close> otherwise, and \<open>CLSCCINCL\<close> and \<open>UNICODE\<close> are always \<open>X\<close>.
\<close>

theorem build_class_abap_attributes_flags:
  assumes "build_class_abap_attributes pf c = Inr v"
  shows "VERSION v = (if clas_active c = ''active'' then ''1'' else ''0'')
   \<and> (VERSION v = ''1'' \<longleftrightarrow> clas_active c = ''active'')
   \<and> FIXPT v = (if clas_fix_point_arithmetic c then ''X'' else '' '')
   \<and> (FIXPT v = ''X'' \<longleftrightarrow> clas_fix_point_arithmetic c)
   \<and> STATE v = (if clas_modeled c then ''0'' else ''1'')
   \<and> (STATE v = ''0'' \<longleftrightarrow> clas_modeled c)
   \<and> CLSCCINCL v = ''X''
   \<and> UNICODE v = ''X''
   \<and> CLSNAME v = clas_name c
   \<and> DESCRIPT v = clas_description c
   \<and> iso_code_to_sap_code pf (clas_master_language c) = Inr (LANGU v)"
  using assms by (auto simp: build_class_abap_attributes_def split: sum.splits)

theorem build_class_abap_attributes_flags_witness:
  "\<exists>v. build_class_abap_attributes example_platform example_clas = Inr v
     \<and> VERSION v = ''1'' \<and> FIXPT v = ''X'' \<and> STATE v = ''1''
     \<and> CLSCCINCL v = ''X'' \<and> UNICODE v = ''X'' \<and> LANGU v = ''E''"
proof -
  obtain v where v: "build_class_abap_attributes example_platform example_clas = Inr v"
    by (simp add: build_class_abap_attributes_def example_platform_def example_clas_def)
  have "LANGU v = ''E''"
    using v by (auto simp: build_class_abap_attributes_def example_platform_def example_clas_def)
  then show ?thesis
    using build_class_abap_attributes_flags[OF v] v
    by (simp add: example_clas_def)
qed

section \<open>Effects of the operations\<close>

lemma bind_Inl [simp]: "bind (Inl e, w) f = (Inl e, w)"
  by (simp add: bind_def)

lemma bind_Inr [simp]: "bind (Inr x, w) f = f x w"
  by (simp add: bind_def)

lemma bind_eq_Inr:
  "bind r f = (Inr y, w') \<longleftrightarrow> (\<exists>x w1. r = (Inr x, w1) \<and> f x w1 = (Inr y, w'))"
  by (cases r; cases "fst r") (auto simp: bind_def)

lemma bind_eq_Inl:
  "bind r f = (Inl e, w') \<longleftrightarrow> (r = (Inl e, w') \<or> (\<exists>x w1. r = (Inr x, w1) \<and> f x w1 = (Inl e, w')))"
  by (cases r; cases "fst r") (auto simp: bind_def)

lemma replays_fail: "replays (\<lambda>w. (Inl e, w))"
  by (auto simp: replays_def intro!: exI[of _ Map.empty])

lemma replays_bind:
  assumes f: "replays f" and g: "replays g"
  shows "replays (\<lambda>w. bind (f w) (\<lambda>_. g))"
  unfolding replays_def
proof (intro allI impI, elim conjE)
  fix w w' t :: world and r :: "exception + unit"
  assume run: "bind (f w) (\<lambda>_. g) = (r, w')" and r: "r = Inr () \<or> r = Inl KeyError"
    and d: "dirs t = dirs w"
  obtain r1 w1 where fw: "f w = (r1, w1)" by (cases "f w")
  show "dirs w' = dirs w \<and>
        (\<exists>m t'. files w' = files w ++ m \<and> bind (f t) (\<lambda>_. g) = (r, t') \<and> dirs t' = dirs t \<and>
           files t' = files t ++ m)"
  proof (cases r1)
    case (Inl e)
    with run fw have eq: "r = Inl e" "w' = w1" by simp_all
    with r have r1K: "r1 = Inl KeyError" using Inl by simp
    from f[unfolded replays_def, rule_format, of w r1 w1 t] fw r1K d
    obtain m t1 where "dirs w1 = dirs w" "files w1 = files w ++ m" "f t = (r1, t1)"
      "dirs t1 = dirs t" "files t1 = files t ++ m"
      by auto
    then show ?thesis using eq Inl by auto
  next
    case (Inr u)
    with run fw have gw: "g w1 = (r, w')" by simp
    from f[unfolded replays_def, rule_format, of w r1 w1 t] fw Inr d
    obtain m1 t1 where 1: "dirs w1 = dirs w" "files w1 = files w ++ m1" "f t = (r1, t1)"
      "dirs t1 = dirs t" "files t1 = files t ++ m1"
      by auto
    have d1: "dirs t1 = dirs w1" using 1 d by simp
    from g[unfolded replays_def, rule_format, of w1 r w' t1] gw r d1
    obtain m2 t' where 2: "dirs w' = dirs w1" "files w' = files w1 ++ m2" "g t1 = (r, t')"
      "dirs t' = dirs t1" "files t' = files t1 ++ m2"
      by auto
    have "bind (f t) (\<lambda>_. g) = (r, t')" using 1 2 Inr by simp
    moreover have "files w' = files w ++ (m1 ++ m2)" "files t' = files t ++ (m1 ++ m2)"
      using 1 2 by simp_all
    ultimately show ?thesis using 1 2 by blast
  qed
qed

lemma open_w_Inl: "open_w p w = (Inl e, w1) \<Longrightarrow> e \<noteq> KeyError \<and> w1 = w"
  by (auto simp: open_w_def split: if_splits)

lemma open_w_Inr:
  "open_w p w = (Inr u, w1) \<Longrightarrow> dirs t = dirs w \<Longrightarrow>
     w1 = w\<lparr>files := (files w)(p \<mapsto> [])\<rparr> \<and> open_w p t = (Inr (), t\<lparr>files := (files t)(p \<mapsto> [])\<rparr>)"
  by (auto simp: open_w_def split: if_splits)

lemma replays_open_then:
  assumes body: "\<And>w. body w = (case src of Inl e \<Rightarrow> (Inl e, w) | Inr x \<Rightarrow> (Inr (), write_text p x w))"
  shows "replays (\<lambda>w. bind (open_w p w) (\<lambda>_. body))"
  unfolding replays_def
proof (intro allI impI, elim conjE)
  fix w w' t :: world and r :: "exception + unit"
  assume run: "bind (open_w p w) (\<lambda>_. body) = (r, w')" and r: "r = Inr () \<or> r = Inl KeyError"
    and d: "dirs t = dirs w"
  obtain r1 w1 where ow: "open_w p w = (r1, w1)" by (cases "open_w p w")
  have "\<exists>u. r1 = Inr u"
  proof (cases r1)
    case (Inl e)
    then have "r = Inl e" using run ow by simp
    moreover have "e \<noteq> KeyError" using open_w_Inl ow Inl by blast
    ultimately show ?thesis using r by simp
  qed simp
  then obtain u where r1: "r1 = Inr u" ..
  from open_w_Inr[OF ow[unfolded r1] d]
  have w1: "w1 = w\<lparr>files := (files w)(p \<mapsto> [])\<rparr>"
    and ot: "open_w p t = (Inr (), t\<lparr>files := (files t)(p \<mapsto> [])\<rparr>)" by simp_all
  have bw: "body w1 = (r, w')" using run ow r1 by simp
  show "dirs w' = dirs w \<and>
        (\<exists>m t'. files w' = files w ++ m \<and> bind (open_w p t) (\<lambda>_. body) = (r, t') \<and>
           dirs t' = dirs t \<and> files t' = files t ++ m)"
  proof (cases src)
    case (Inl e)
    then have "r = Inl e" "w' = w1" using bw body by simp_all
    moreover have "files w1 = files w ++ [p \<mapsto> []]" "files (t\<lparr>files := (files t)(p \<mapsto> [])\<rparr>) = files t ++ [p \<mapsto> []]"
      using w1 by simp_all
    moreover have "bind (open_w p t) (\<lambda>_. body) = (Inl e, t\<lparr>files := (files t)(p \<mapsto> [])\<rparr>)"
      using ot body Inl by simp
    ultimately show ?thesis using w1 by (intro conjI exI[of _ "[p \<mapsto> []]"] exI[of _ "t\<lparr>files := (files t)(p \<mapsto> [])\<rparr>"]) simp_all
  next
    case (Inr x)
    then have "r = Inr ()" "w' = write_text p x w1" using bw body by simp_all
    moreover have "files (write_text p x w1) = files w ++ [p \<mapsto> x]"
      "files (write_text p x (t\<lparr>files := (files t)(p \<mapsto> [])\<rparr>)) = files t ++ [p \<mapsto> x]"
      "dirs (write_text p x w1) = dirs w"
      "dirs (write_text p x (t\<lparr>files := (files t)(p \<mapsto> [])\<rparr>)) = dirs t"
      using w1 by (simp_all add: write_text_def)
    moreover have "bind (open_w p t) (\<lambda>_. body) = (Inr (), write_text p x (t\<lparr>files := (files t)(p \<mapsto> [])\<rparr>))"
      using ot body Inr by simp
    ultimately show ?thesis
      by (intro conjI exI[of _ "[p \<mapsto> x]"] exI[of _ "write_text p x (t\<lparr>files := (files t)(p \<mapsto> [])\<rparr>)"]) simp_all
  qed
qed

lemma replays_download: "replays (download_abap_source n src sfx d)"
proof -
  have "download_abap_source n src sfx d =
      (\<lambda>w. bind (open_w (build_filename n sfx ''abap'' d) w) (\<lambda>_ w1.
           case src of Inl e \<Rightarrow> (Inl e, w1)
           | Inr t \<Rightarrow> (Inr (), write_text (build_filename n sfx ''abap'' d) t w1)))"
    by (simp add: download_abap_source_def fun_eq_iff Let_def)
  then show ?thesis by (simp only:) (rule replays_open_then, simp)
qed

lemma replays_dump: "replays (dump_attributes_to_file pf n v sfx ser d)"
proof -
  have "dump_attributes_to_file pf n v sfx ser d =
      (\<lambda>w. bind (open_w (build_filename n sfx ''xml'' d) w) (\<lambda>_ w1.
           case xml_writer pf ser v of Inl e \<Rightarrow> (Inl e, w1)
           | Inr x \<Rightarrow> (Inr (), write_text (build_filename n sfx ''xml'' d) x w1)))"
    by (simp add: dump_attributes_to_file_def fun_eq_iff Let_def)
  then show ?thesis by (simp only:) (rule replays_open_then, simp)
qed

lemma replays_checkout_program: "replays (checkout_program pf conn name d)"
  unfolding checkout_program_def by (rule replays_download)

lemma replays_checkout_interface: "replays (checkout_interface pf conn name d)"
  unfolding checkout_interface_def by (rule replays_download)

lemma replays_checkout_class: "replays (checkout_class pf conn name d)"
proof (cases "class_fetch conn name")
  case (Inl e)
  then have "checkout_class pf conn name d = (\<lambda>w. (Inl e, w))"
    by (simp add: checkout_class_def fun_eq_iff)
  then show ?thesis by (simp add: replays_fail)
next
  case (Inr c)
  have last: "replays (\<lambda>w4. case build_class_abap_attributes pf c of
            Inl e \<Rightarrow> (Inl e, w4)
          | Inr v \<Rightarrow> dump_attributes_to_file pf name v ''.clas'' ''LCL_OBJECT_CLAS'' d w4)"
    by (cases "build_class_abap_attributes pf c") (simp_all add: replays_fail replays_dump)
  have "checkout_class pf conn name d =
    (\<lambda>w. bind (download_abap_source name (class_text conn name) ''.clas'' d w) (\<lambda>_ w1.
          bind (download_abap_source name (class_definitions_text conn name)
                  ''.clas.locals_def'' d w1) (\<lambda>_ w2.
          bind (download_abap_source name (class_implementations_text conn name)
                  ''.clas.locals_imp'' d w2) (\<lambda>_ w3.
          bind (download_abap_source name (class_test_classes_text conn name)
                  ''.clas.testclasses'' d w3) (\<lambda>_ w4.
          case build_class_abap_attributes pf c of
            Inl e \<Rightarrow> (Inl e, w4)
          | Inr v \<Rightarrow>
              dump_attributes_to_file pf name v ''.clas'' ''LCL_OBJECT_CLAS'' d w4)))))"
    using Inr by (simp add: checkout_class_def fun_eq_iff)
  then show ?thesis
    by (simp only:) (intro replays_bind replays_download last)
qed

lemma checkouters_cases:
  "checkouters t = Some f \<Longrightarrow>
     f = checkout_program \<or> f = checkout_class \<or> f = checkout_interface"
  by (auto simp: checkouters_def split: if_splits)

lemma replays_checkout_try: "replays (checkout_try pf conn d obj)"
proof (cases "checkouters (obj_typ obj)")
  case None
  then have "checkout_try pf conn d obj = (\<lambda>w. (Inl KeyError, w))"
    by (simp add: checkout_try_def fun_eq_iff)
  then show ?thesis by (simp add: replays_fail)
next
  case (Some f)
  then have eq: "checkout_try pf conn d obj = f pf conn (obj_name obj) d"
    by (simp add: checkout_try_def fun_eq_iff)
  from checkouters_cases[OF Some] show ?thesis
    unfolding eq
    by (auto simp: replays_checkout_program replays_checkout_class replays_checkout_interface)
qed

lemma replays_checkout_object: "replays (checkout_object pf conn d obj)"
  unfolding replays_def
proof (intro allI impI, elim conjE)
  fix w w' t :: world and r :: "exception + unit"
  assume run: "checkout_object pf conn d obj w = (r, w')" and r: "r = Inr () \<or> r = Inl KeyError"
    and dt: "dirs t = dirs w"
  obtain r1 w1 where tw: "checkout_try pf conn d obj w = (r1, w1)"
    by (cases "checkout_try pf conn d obj w")
  have r1: "r1 = Inr () \<or> r1 = Inl KeyError"
    using run r tw by (cases r1) (auto simp: checkout_object_def split: if_splits)
  from replays_checkout_try[of pf conn d obj, unfolded replays_def, rule_format, of w r1 w1 t] tw r1 dt
  obtain m t1 where 1: "dirs w1 = dirs w" "checkout_try pf conn d obj t = (r1, t1)" "dirs t1 = dirs t"
      "files w1 = files w ++ m" "files t1 = files t ++ m"
    by auto
  show "dirs w' = dirs w \<and>
        (\<exists>m t'. files w' = files w ++ m \<and> checkout_object pf conn d obj t = (r, t') \<and>
           dirs t' = dirs t \<and> files t' = files t ++ m)"
  proof (cases r1)
    case (Inl e)
    with r1 have e: "r1 = Inl KeyError" by simp
    have w': "r = Inr ()" "w' = print_stderr (unsupported_line obj) w1"
      using run tw e by (simp_all add: checkout_object_def)
    have "checkout_object pf conn d obj t = (Inr (), print_stderr (unsupported_line obj) t1)"
      using 1(2) e by (simp add: checkout_object_def)
    moreover have "files (print_stderr (unsupported_line obj) t1) = files t1"
      "files (print_stderr (unsupported_line obj) w1) = files w1"
      "dirs (print_stderr (unsupported_line obj) t1) = dirs t1"
      "dirs (print_stderr (unsupported_line obj) w1) = dirs w1"
      by (simp_all add: print_stderr_def)
    ultimately show ?thesis using w' 1 by auto
  next
    case (Inr u)
    have w': "r = Inr ()" "w' = w1"
      using run tw Inr by (simp_all add: checkout_object_def)
    have "checkout_object pf conn d obj t = (Inr (), t1)"
      using 1(2) Inr by (simp add: checkout_object_def)
    then show ?thesis using w' 1 by auto
  qed
qed

lemma replays_checkout_loop: "replays (checkout_loop pf conn d objs)"
proof (induction objs)
  case Nil
  have "checkout_loop pf conn d [] = (\<lambda>w. (Inr (), w))" by (simp add: fun_eq_iff)
  then show ?case by (auto simp: replays_def intro!: exI[of _ Map.empty])
next
  case (Cons obj objs)
  have "checkout_loop pf conn d (obj # objs) =
      (\<lambda>w. bind (checkout_object pf conn d obj w) (\<lambda>_. checkout_loop pf conn d objs))"
    by (simp add: fun_eq_iff)
  then show ?case
    by (simp only:) (intro replays_bind replays_checkout_object Cons.IH)
qed

lemma path_prefixes_self: "acc @ p \<in> set (path_prefixes acc p)"
proof (induction p arbitrary: acc)
  case Nil
  show ?case by simp
next
  case (Cons c p)
  have "(acc @ [c]) @ p \<in> set (path_prefixes (acc @ [c]) p)" by (rule Cons.IH)
  then show ?case by auto
qed

lemma makedirs_Inr:
  "makedirs p w = (Inr u, w1) \<Longrightarrow>
     p \<in> dirs w1 \<and> dirs w \<subseteq> dirs w1 \<and> files w1 = files w \<and> cwd w1 = cwd w \<and> stderr w1 = stderr w"
  using path_prefixes_self[of "[]" p]
  by (auto simp: makedirs_def split: if_splits)

lemma makedirs_Inl: "makedirs p w = (Inl e, w1) \<Longrightarrow> w1 = w"
  by (auto simp: makedirs_def split: if_splits)

lemma makedirs_existing: "isdir p w \<Longrightarrow> p \<noteq> [] \<Longrightarrow> makedirs p w = (Inl FileExistsError, w)"
  by (simp add: makedirs_def isdir_def)

lemma keeps_dirs_bind:
  "keeps_dirs f \<Longrightarrow> (\<And>x. keeps_dirs (g x)) \<Longrightarrow> keeps_dirs (\<lambda>w. bind (f w) g)"
  unfolding keeps_dirs_def
proof (intro allI)
  fix w :: world
  assume f: "\<forall>w. dirs (snd (f w)) = dirs w \<and> cwd (snd (f w)) = cwd w"
    and g: "\<And>x. \<forall>w. dirs (snd (g x w)) = dirs w \<and> cwd (snd (g x w)) = cwd w"
  obtain r w1 where fw: "f w = (r, w1)" by (cases "f w")
  with f[rule_format, of w] have 1: "dirs w1 = dirs w" "cwd w1 = cwd w" by simp_all
  show "dirs (snd (bind (f w) g)) = dirs w \<and> cwd (snd (bind (f w) g)) = cwd w"
    using fw 1 g by (cases r) simp_all
qed

lemma keeps_dirs_const: "keeps_dirs (\<lambda>w. (r, w))"
  by (simp add: keeps_dirs_def)

lemma keeps_dirs_open_w: "keeps_dirs (open_w p)"
  by (simp add: keeps_dirs_def open_w_def)

lemma keeps_dirs_download: "keeps_dirs (download_abap_source n src sfx d)"
  unfolding download_abap_source_def Let_def
  by (intro keeps_dirs_bind keeps_dirs_open_w) (simp add: keeps_dirs_def write_text_def split: sum.splits)

lemma keeps_dirs_dump: "keeps_dirs (dump_attributes_to_file pf n v sfx ser d)"
  unfolding dump_attributes_to_file_def Let_def
  by (intro keeps_dirs_bind keeps_dirs_open_w) (simp add: keeps_dirs_def write_text_def split: sum.splits)

lemma keeps_dirs_checkout_class: "keeps_dirs (checkout_class pf conn name d)"
proof (cases "class_fetch conn name")
  case (Inl e)
  then have "checkout_class pf conn name d = (\<lambda>w. (Inl e, w))"
    by (simp add: checkout_class_def fun_eq_iff)
  then show ?thesis by (simp add: keeps_dirs_const)
next
  case (Inr c)
  have last: "keeps_dirs (\<lambda>w4. case build_class_abap_attributes pf c of
            Inl e \<Rightarrow> (Inl e, w4)
          | Inr v \<Rightarrow> dump_attributes_to_file pf name v ''.clas'' ''LCL_OBJECT_CLAS'' d w4)"
    by (cases "build_class_abap_attributes pf c") (simp_all add: keeps_dirs_const keeps_dirs_dump)
  show ?thesis
    unfolding checkout_class_def Inr sum.case
    by (intro keeps_dirs_bind keeps_dirs_download last)
qed

lemma keeps_dirs_checkout_try: "keeps_dirs (checkout_try pf conn d obj)"
proof (cases "checkouters (obj_typ obj)")
  case None
  then have "checkout_try pf conn d obj = (\<lambda>w. (Inl KeyError, w))"
    by (simp add: checkout_try_def fun_eq_iff)
  then show ?thesis by (simp add: keeps_dirs_const)
next
  case (Some f)
  then have eq: "checkout_try pf conn d obj = f pf conn (obj_name obj) d"
    by (simp add: checkout_try_def fun_eq_iff)
  from checkouters_cases[OF Some] show ?thesis
    unfolding eq
    by (auto simp: checkout_program_def[abs_def] checkout_interface_def[abs_def]
        keeps_dirs_download keeps_dirs_checkout_class)
qed

lemma keeps_dirs_checkout_object: "keeps_dirs (checkout_object pf conn d obj)"
  unfolding keeps_dirs_def
proof
  fix w :: world
  obtain r w1 where tw: "checkout_try pf conn d obj w = (r, w1)"
    by (cases "checkout_try pf conn d obj w")
  with keeps_dirs_checkout_try[of pf conn d obj, unfolded keeps_dirs_def, rule_format, of w]
  have "dirs w1 = dirs w" "cwd w1 = cwd w" by simp_all
  then show "dirs (snd (checkout_object pf conn d obj w)) = dirs w \<and>
        cwd (snd (checkout_object pf conn d obj w)) = cwd w"
    using tw by (cases r) (simp_all add: checkout_object_def print_stderr_def)
qed

lemma keeps_dirs_checkout_loop: "keeps_dirs (checkout_loop pf conn d objs)"
proof (induction objs)
  case Nil
  show ?case by (simp add: keeps_dirs_def)
next
  case (Cons obj objs)
  have "checkout_loop pf conn d (obj # objs) =
      (\<lambda>w. bind (checkout_object pf conn d obj w) (\<lambda>_. checkout_loop pf conn d objs))"
    by (simp add: fun_eq_iff)
  then show ?case
    by (simp only:) (intro keeps_dirs_bind keeps_dirs_checkout_object Cons.IH)
qed

section \<open>Creating the destination directory\<close>

text \<open>
  C10. Unless creating the directory itself raises, the destination directory exists
  after \<open>checkout_objects\<close>, for every object list and whether or not an exporter fails;
  for the empty list the call succeeds and writes no file.
\<close>

theorem checkout_objects_creates_destdir:
  assumes "isdir d w \<or> fst (makedirs d w) = Inr ()"
  shows "isdir d (snd (checkout_objects pf conn objects (Some d) w))
     \<and> fst (checkout_objects pf conn [] (Some d) w) = Inr ()
     \<and> files (snd (checkout_objects pf conn [] (Some d) w)) = files w"
proof (cases "isdir d w")
  case True
  then have "checkout_objects pf conn objs (Some d) w = checkout_loop pf conn (Some d) objs w" for objs
    by (simp add: checkout_objects_def)
  then show ?thesis
    using True keeps_dirs_checkout_loop[of pf conn "Some d" objects, unfolded keeps_dirs_def, rule_format, of w]
    by (simp add: isdir_def)
next
  case False
  with assms obtain w1 where mk: "makedirs d w = (Inr (), w1)"
    by (cases "makedirs d w") auto
  then have eq: "checkout_objects pf conn objs (Some d) w = checkout_loop pf conn (Some d) objs w1" for objs
    using False by (simp add: checkout_objects_def)
  from makedirs_Inr[OF mk] have "d \<in> dirs w1" "files w1 = files w" by simp_all
  then show ?thesis
    using keeps_dirs_checkout_loop[of pf conn "Some d" objects, unfolded keeps_dirs_def, rule_format, of w1]
    by (simp add: eq isdir_def)
qed

theorem checkout_objects_creates_destdir_witness:
  "isdir ''/home/repo/src'' (snd (checkout_objects example_platform example_connection []
      (Some ''/home/repo/src'') example_world))
   \<and> \<not> isdir ''/home/repo/src'' example_world"
proof -
  have h: "isdir ''/home/repo/src'' example_world
      \<or> fst (makedirs ''/home/repo/src'' example_world) = Inr ()"
    by (simp add: makedirs_def example_world_def isdir_def)
  have "\<not> isdir ''/home/repo/src'' example_world"
    by (simp add: example_world_def isdir_def)
  then show ?thesis
    using checkout_objects_creates_destdir[OF h, of example_platform example_connection "[]"]
    by simp
qed

section \<open>Running a checkout again\<close>

lemma checkout_objects_existing:
  "isdir d w \<Longrightarrow>
     checkout_objects pf conn objs (Some d) w = checkout_loop pf conn (Some d) objs w"
  by (simp add: checkout_objects_def)

lemma checkout_objects_start:
  assumes "checkout_objects pf conn objs (Some d) w = (Inr (), w1)"
  shows "\<exists>wm. d \<in> dirs wm \<and> files wm = files w \<and>
     (\<forall>pf' conn' objs'. checkout_objects pf' conn' objs' (Some d) w
         = checkout_loop pf' conn' (Some d) objs' wm)"
proof (cases "isdir d w")
  case True
  then show ?thesis
    by (intro exI[of _ w]) (simp add: checkout_objects_def isdir_def)
next
  case False
  obtain r wm where mk: "makedirs d w = (r, wm)" by (cases "makedirs d w")
  have "\<exists>u. r = Inr u"
    using assms False mk by (cases r) (simp_all add: checkout_objects_def)
  then have mk': "makedirs d w = (Inr (), wm)" using mk by auto
  from makedirs_Inr[OF mk'] show ?thesis
    using False mk' by (intro exI[of _ wm]) (simp add: checkout_objects_def)
qed

lemma checkout_objects_rerun:
  assumes run1: "checkout_objects pf conn objs (Some d) w = (Inr (), w1)"
    and fresh: "checkout_objects pf' conn' objs' (Some d) w = (Inr (), v)"
  shows "\<exists>w2 m. checkout_objects pf' conn' objs' (Some d) w1 = (Inr (), w2)
     \<and> dirs w2 = dirs w1 \<and> files v = files w ++ m \<and> files w2 = files w1 ++ m"
proof -
  from checkout_objects_start[OF run1] obtain wm where
    wm: "d \<in> dirs wm" "files wm = files w"
    and eq: "\<And>pf' conn' objs'. checkout_objects pf' conn' objs' (Some d) w
         = checkout_loop pf' conn' (Some d) objs' wm"
    by blast
  have l1: "checkout_loop pf conn (Some d) objs wm = (Inr (), w1)" using run1 eq by simp
  have l2: "checkout_loop pf' conn' (Some d) objs' wm = (Inr (), v)" using fresh eq by simp
  have d1: "dirs w1 = dirs wm"
    using keeps_dirs_checkout_loop[of pf conn "Some d" objs, unfolded keeps_dirs_def, rule_format, of wm] l1
    by simp
  from replays_checkout_loop[of pf' conn' "Some d" objs', unfolded replays_def, rule_format,
      of wm "Inr ()" v w1] l2 d1
  obtain m t' where r: "files v = files wm ++ m"
    "checkout_loop pf' conn' (Some d) objs' w1 = (Inr (), t')" "dirs t' = dirs w1"
    "files t' = files w1 ++ m"
    by auto
  have "isdir d w1" using wm d1 by (simp add: isdir_def)
  then have "checkout_objects pf' conn' objs' (Some d) w1 = (Inr (), t')"
    using r by (simp add: checkout_objects_existing)
  then show ?thesis using r wm by auto
qed

lemma checkout_objects_idem:
  assumes run1: "checkout_objects pf conn objs (Some d) w = (Inr (), w1)"
  shows "\<exists>w2. checkout_objects pf conn objs (Some d) w1 = (Inr (), w2)
     \<and> dirs w2 = dirs w1 \<and> files w2 = files w1"
proof -
  from checkout_objects_rerun[OF run1 run1] obtain w2 m where
    r: "checkout_objects pf conn objs (Some d) w1 = (Inr (), w2)" "dirs w2 = dirs w1"
      "files w1 = files w ++ m" "files w2 = files w1 ++ m"
    by blast
  have "files w ++ m ++ m = files w ++ m"
    by (simp add: map_add_def fun_eq_iff split: option.splits)
  then have "files w2 = files w1"
    using r(3,4) by simp
  then show ?thesis using r by auto
qed

lemma abspath_cwd: "cwd w' = cwd w \<Longrightarrow> abspath w' p = abspath w p"
  by (simp add: abspath_def)

lemma make_repo_dir_for_package_idem:
  assumes run1: "make_repo_dir_for_package pf a w = (Inr r, w1)"
  shows "\<exists>w2. make_repo_dir_for_package pf a w1 = (Inr r, w2)
     \<and> dirs w2 = dirs w1 \<and> files w2 = files w1"
proof -
  define r0 where "r0 = (case arg_directory a of None \<Rightarrow> arg_name a
                       | Some d \<Rightarrow> if d = [] then arg_name a else d)"
  define rd where "rd = abspath w r0"
  define rf where "rf = path_join rd ''.abapgit.xml''"
  define dot where "dot = for_new_repo (''/'' @ arg_starting_folder a @ ''/'')"
  define step where "step = (\<lambda>w::world. if \<not> isdir rd w then makedirs rd w else (Inr (), w))"
  define rest where "rest = (\<lambda>w2. case to_xml pf dot of
                  Inl e \<Rightarrow> (Inl e, w2)
                | Inr x \<Rightarrow> (Inr rd, write_text rf x w2))"
  have unfold: "make_repo_dir_for_package pf a w' =
      bind (step w') (\<lambda>_ wa. bind (open_w rf wa) (\<lambda>_. rest))" if "cwd w' = cwd w" for w'
    unfolding make_repo_dir_for_package_def Let_def step_def rest_def rf_def dot_def rd_def r0_def
      abspath_cwd[OF that] ..
  obtain ra wa where sa0: "step w = (ra, wa)" by (cases "step w")
  have "\<exists>u. ra = Inr u" using run1 unfold[of w] sa0 by (cases ra) simp_all
  then have sa: "step w = (Inr (), wa)" using sa0 by auto
  have 2: "bind (open_w rf wa) (\<lambda>_. rest) = (Inr r, w1)"
    using run1 unfold[of w] sa by simp
  obtain rb wb where ob0: "open_w rf wa = (rb, wb)" by (cases "open_w rf wa")
  have "\<exists>u. rb = Inr u" using 2 ob0 by (cases rb) simp_all
  then have ob: "open_w rf wa = (Inr (), wb)" using ob0 by auto
  have 3: "rest wb = (Inr r, w1)" using 2 ob by simp
  from 3 obtain x where x: "to_xml pf dot = Inr x" and res: "r = rd" "w1 = write_text rf x wb"
    by (cases "to_xml pf dot") (auto simp: rest_def)
  have wa: "rd \<in> dirs wa" "cwd wa = cwd w"
    using sa makedirs_Inr[of rd w "()" wa] by (auto simp: step_def isdir_def split: if_splits)
  have wb: "dirs wb = dirs wa" "cwd wb = cwd wa"
    using ob by (auto simp: open_w_def split: if_splits)
  have w1: "dirs w1 = dirs wa" "cwd w1 = cwd w" "files w1 rf = Some x"
    using res wa wb by (simp_all add: write_text_def)
  have s1: "step w1 = (Inr (), w1)" using w1 wa by (simp add: step_def isdir_def)
  from open_w_Inr[OF ob, of w1] w1
  have o1: "open_w rf w1 = (Inr (), w1\<lparr>files := (files w1)(rf \<mapsto> [])\<rparr>)" by simp
  have "make_repo_dir_for_package pf a w1
      = (Inr r, write_text rf x (w1\<lparr>files := (files w1)(rf \<mapsto> [])\<rparr>))"
    using unfold[of w1] w1 s1 o1 x res by (simp add: rest_def)
  moreover have "files (write_text rf x (w1\<lparr>files := (files w1)(rf \<mapsto> [])\<rparr>)) = files w1"
    using w1(3) by (auto simp: write_text_def fun_eq_iff)
  moreover have "dirs (write_text rf x (w1\<lparr>files := (files w1)(rf \<mapsto> [])\<rparr>)) = dirs w1"
    by (simp add: write_text_def)
  ultimately show ?thesis by blast
qed

text \<open>
  C9. When the destination directory exists, \<open>checkout_objects\<close> goes straight to the
  loop and does not call \<open>os.makedirs\<close>. A checkout into the directory a first, successful
  checkout left behind succeeds whenever it succeeds from the state before the first
  run, and lays the same files \<open>m\<close> over what it finds, so the files of the first run are
  overwritten; running the same checkout again leaves directories and files as they are.
  The same holds for the repository directory and its metadata file.
\<close>

theorem checkout_rerun:
  "(isdir d w \<longrightarrow>
      checkout_objects pf conn objs (Some d) w = checkout_loop pf conn (Some d) objs w)
   \<and> (checkout_objects pf conn objs (Some d) w = (Inr (), w1)
        \<and> checkout_objects pf' conn' objs' (Some d) w = (Inr (), v) \<longrightarrow>
      (\<exists>w2 m. checkout_objects pf' conn' objs' (Some d) w1 = (Inr (), w2)
         \<and> dirs w2 = dirs w1 \<and> files v = files w ++ m \<and> files w2 = files w1 ++ m))
   \<and> (checkout_objects pf conn objs (Some d) w = (Inr (), w1) \<longrightarrow>
      (\<exists>w2. checkout_objects pf conn objs (Some d) w1 = (Inr (), w2)
         \<and> dirs w2 = dirs w1 \<and> files w2 = files w1))
   \<and> (make_repo_dir_for_package pf a w = (Inr r, w1) \<longrightarrow>
      (\<exists>w2. make_repo_dir_for_package pf a w1 = (Inr r, w2)
         \<and> dirs w2 = dirs w1 \<and> files w2 = files w1))"
proof (intro conjI impI)
  assume "isdir d w"
  then show "checkout_objects pf conn objs (Some d) w = checkout_loop pf conn (Some d) objs w"
    by (rule checkout_objects_existing)
next
  assume "checkout_objects pf conn objs (Some d) w = (Inr (), w1)
        \<and> checkout_objects pf' conn' objs' (Some d) w = (Inr (), v)"
  then show "\<exists>w2 m. checkout_objects pf' conn' objs' (Some d) w1 = (Inr (), w2)
         \<and> dirs w2 = dirs w1 \<and> files v = files w ++ m \<and> files w2 = files w1 ++ m"
    using checkout_objects_rerun by blast
next
  assume "checkout_objects pf conn objs (Some d) w = (Inr (), w1)"
  then show "\<exists>w2. checkout_objects pf conn objs (Some d) w1 = (Inr (), w2)
         \<and> dirs w2 = dirs w1 \<and> files w2 = files w1"
    by (rule checkout_objects_idem)
next
  assume "make_repo_dir_for_package pf a w = (Inr r, w1)"
  then show "\<exists>w2. make_repo_dir_for_package pf a w1 = (Inr r, w2)
         \<and> dirs w2 = dirs w1 \<and> files w2 = files w1"
    by (rule make_repo_dir_for_package_idem)
qed

theorem checkout_rerun_witness:
  "\<exists>w1 w2 w3 w4.
      checkout_objects example_platform example_connection example_objects
        (Some ''/home/repo/src'') example_world = (Inr (), w1)
    \<and> checkout_objects example_platform example_connection example_objects
        (Some ''/home/repo/src'') w1 = (Inr (), w2)
    \<and> isdir ''/home/repo/src'' w1
    \<and> files w2 = files w1
    \<and> files w1 ''/home/repo/src/zprog.prog.abap'' = Some ''report ZPROG''
    \<and> make_repo_dir_for_package example_platform example_args example_world = (Inr ''/home/ZPKG'', w3)
    \<and> make_repo_dir_for_package example_platform example_args w3 = (Inr ''/home/ZPKG'', w4)
    \<and> files w4 = files w3"
proof -
  let ?run = "checkout_objects example_platform example_connection example_objects
        (Some ''/home/repo/src'')"
  have "fst (?run example_world) = Inr ()" by code_simp
  then obtain w1 where run1: "?run example_world = (Inr (), w1)"
    by (cases "?run example_world") auto
  have "files (snd (?run example_world)) ''/home/repo/src/zprog.prog.abap'' = Some ''report ZPROG''"
    by code_simp
  then have f1: "files w1 ''/home/repo/src/zprog.prog.abap'' = Some ''report ZPROG''"
    using run1 by simp
  have "isdir ''/home/repo/src'' (snd (?run example_world))" by code_simp
  then have d1: "isdir ''/home/repo/src'' w1" using run1 by simp
  note inst = checkout_rerun[where d = "''/home/repo/src''" and pf = example_platform
      and conn = example_connection and objs = example_objects and pf' = example_platform
      and conn' = example_connection and objs' = example_objects]
  from inst[where w = example_world and ?w1.0 = w1 and v = w1, THEN conjunct2, THEN conjunct1] run1
  obtain w2 m where run2: "?run w1 = (Inr (), w2)" and over: "files w2 = files w1 ++ m"
    by blast
  from inst[where w = example_world and ?w1.0 = w1, THEN conjunct2, THEN conjunct2, THEN conjunct1] run1 run2
  have same: "files w2 = files w1" by auto
  from inst[where w = w1, THEN conjunct1] d1
  have "?run w1 = checkout_loop example_platform example_connection (Some ''/home/repo/src'')
      example_objects w1" by blast
  have "fst (make_repo_dir_for_package example_platform example_args example_world)
      = Inr ''/home/ZPKG''" by code_simp
  then obtain w3 where repo1:
    "make_repo_dir_for_package example_platform example_args example_world = (Inr ''/home/ZPKG'', w3)"
    by (cases "make_repo_dir_for_package example_platform example_args example_world") auto
  from checkout_rerun[where w = example_world and ?w1.0 = w3 and pf = example_platform
      and a = example_args and r = "''/home/ZPKG''",
      THEN conjunct2, THEN conjunct2, THEN conjunct2] repo1
  obtain w4 where
    "make_repo_dir_for_package example_platform example_args w3 = (Inr ''/home/ZPKG'', w4)"
    "files w4 = files w3"
    by blast
  then show ?thesis using run1 run2 same f1 d1 repo1 by blast
qed

section \<open>Files written by the exporters\<close>

lemma bind_InrE:
  assumes "bind r g = (Inr y, w')"
  obtains x w1 where "r = (Inr x, w1)" "g x w1 = (Inr y, w')"
  using assms by (auto simp: bind_eq_Inr)

lemma open_w_files:
  "open_w p w = (Inr u, w1) \<Longrightarrow> w1 = w\<lparr>files := (files w)(p \<mapsto> [])\<rparr>"
  by (auto simp: open_w_def split: if_splits)

lemma download_success:
  assumes "download_abap_source n src sfx d w = (Inr u, w')"
  shows "\<exists>t. src = Inr t \<and> w' = w\<lparr>files := (files w)(build_filename n sfx ''abap'' d \<mapsto> t)\<rparr>"
proof -
  let ?f = "build_filename n sfx ''abap'' d"
  from assms obtain x w1 where o: "open_w ?f w = (Inr x, w1)"
    and b: "(case src of Inl e \<Rightarrow> (Inl e, w1) | Inr t \<Rightarrow> (Inr (), write_text ?f t w1)) = (Inr u, w')"
    unfolding download_abap_source_def Let_def by (rule bind_InrE)
  from b obtain t where "src = Inr t" "w' = write_text ?f t w1" by (cases src) auto
  then show ?thesis using open_w_files[OF o] by (simp add: write_text_def)
qed

lemma dump_success:
  assumes "dump_attributes_to_file pf n v sfx ser d w = (Inr u, w')"
  shows "\<exists>x. xml_writer pf ser v = Inr x
     \<and> w' = w\<lparr>files := (files w)(build_filename n sfx ''xml'' d \<mapsto> x)\<rparr>"
proof -
  let ?f = "build_filename n sfx ''xml'' d"
  from assms obtain y w1 where o: "open_w ?f w = (Inr y, w1)"
    and b: "(case xml_writer pf ser v of Inl e \<Rightarrow> (Inl e, w1)
             | Inr x \<Rightarrow> (Inr (), write_text ?f x w1)) = (Inr u, w')"
    unfolding dump_attributes_to_file_def Let_def by (rule bind_InrE)
  from b obtain x where "xml_writer pf ser v = Inr x" "w' = write_text ?f x w1"
    by (cases "xml_writer pf ser v") auto
  then show ?thesis using open_w_files[OF o] by (simp add: write_text_def)
qed

lemma checkout_class_success:
  assumes run: "checkout_class pf conn name d w = (Inr (), w')"
  shows "\<exists>c v t1 t2 t3 t4 x.
      class_fetch conn name = Inr c
    \<and> class_text conn name = Inr t1
    \<and> class_definitions_text conn name = Inr t2
    \<and> class_implementations_text conn name = Inr t3
    \<and> class_test_classes_text conn name = Inr t4
    \<and> build_class_abap_attributes pf c = Inr v
    \<and> xml_writer pf ''LCL_OBJECT_CLAS'' v = Inr x
    \<and> w' = w\<lparr>files := (files w)
          (build_filename name ''.clas'' ''abap'' d \<mapsto> t1,
           build_filename name ''.clas.locals_def'' ''abap'' d \<mapsto> t2,
           build_filename name ''.clas.locals_imp'' ''abap'' d \<mapsto> t3,
           build_filename name ''.clas.testclasses'' ''abap'' d \<mapsto> t4,
           build_filename name ''.clas'' ''xml'' d \<mapsto> x)\<rparr>"
proof -
  obtain c where c: "class_fetch conn name = Inr c"
    using run by (cases "class_fetch conn name") (simp_all add: checkout_class_def)
  note run' = run[unfolded checkout_class_def c sum.case]
  from run' obtain u1 w1 where
    s1: "download_abap_source name (class_text conn name) ''.clas'' d w = (Inr u1, w1)"
    and r1: "bind (download_abap_source name (class_definitions_text conn name)
                  ''.clas.locals_def'' d w1) (\<lambda>_ w2.
          bind (download_abap_source name (class_implementations_text conn name)
                  ''.clas.locals_imp'' d w2) (\<lambda>_ w3.
          bind (download_abap_source name (class_test_classes_text conn name)
                  ''.clas.testclasses'' d w3) (\<lambda>_ w4.
          case build_class_abap_attributes pf c of
            Inl e \<Rightarrow> (Inl e, w4)
          | Inr v \<Rightarrow>
              dump_attributes_to_file pf name v ''.clas'' ''LCL_OBJECT_CLAS'' d w4))) = (Inr (), w')"
    by (rule bind_InrE)
  from r1 obtain u2 w2 where
    s2: "download_abap_source name (class_definitions_text conn name)
                  ''.clas.locals_def'' d w1 = (Inr u2, w2)"
    and r2: "bind (download_abap_source name (class_implementations_text conn name)
                  ''.clas.locals_imp'' d w2) (\<lambda>_ w3.
          bind (download_abap_source name (class_test_classes_text conn name)
                  ''.clas.testclasses'' d w3) (\<lambda>_ w4.
          case build_class_abap_attributes pf c of
            Inl e \<Rightarrow> (Inl e, w4)
          | Inr v \<Rightarrow>
              dump_attributes_to_file pf name v ''.clas'' ''LCL_OBJECT_CLAS'' d w4)) = (Inr (), w')"
    by (rule bind_InrE)
  from r2 obtain u3 w3 where
    s3: "download_abap_source name (class_implementations_text conn name)
                  ''.clas.locals_imp'' d w2 = (Inr u3, w3)"
    and r3: "bind (download_abap_source name (class_test_classes_text conn name)
                  ''.clas.testclasses'' d w3) (\<lambda>_ w4.
          case build_class_abap_attributes pf c of
            Inl e \<Rightarrow> (Inl e, w4)
          | Inr v \<Rightarrow>
              dump_attributes_to_file pf name v ''.clas'' ''LCL_OBJECT_CLAS'' d w4) = (Inr (), w')"
    by (rule bind_InrE)
  from r3 obtain u4 w4 where
    s4: "download_abap_source name (class_test_classes_text conn name)
                  ''.clas.testclasses'' d w3 = (Inr u4, w4)"
    and r4: "(case build_class_abap_attributes pf c of
            Inl e \<Rightarrow> (Inl e, w4)
          | Inr v \<Rightarrow>
              dump_attributes_to_file pf name v ''.clas'' ''LCL_OBJECT_CLAS'' d w4) = (Inr (), w')"
    by (rule bind_InrE)
  from r4 obtain v where v: "build_class_abap_attributes pf c = Inr v"
    and s5: "dump_attributes_to_file pf name v ''.clas'' ''LCL_OBJECT_CLAS'' d w4 = (Inr (), w')"
    by (cases "build_class_abap_attributes pf c") auto
  from download_success[OF s1] obtain t1 where t1: "class_text conn name = Inr t1"
    "w1 = w\<lparr>files := (files w)(build_filename name ''.clas'' ''abap'' d \<mapsto> t1)\<rparr>" by blast
  from download_success[OF s2] obtain t2 where t2: "class_definitions_text conn name = Inr t2"
    "w2 = w1\<lparr>files := (files w1)(build_filename name ''.clas.locals_def'' ''abap'' d \<mapsto> t2)\<rparr>"
    by blast
  from download_success[OF s3] obtain t3 where t3: "class_implementations_text conn name = Inr t3"
    "w3 = w2\<lparr>files := (files w2)(build_filename name ''.clas.locals_imp'' ''abap'' d \<mapsto> t3)\<rparr>"
    by blast
  from download_success[OF s4] obtain t4 where t4: "class_test_classes_text conn name = Inr t4"
    "w4 = w3\<lparr>files := (files w3)(build_filename name ''.clas.testclasses'' ''abap'' d \<mapsto> t4)\<rparr>"
    by blast
  from dump_success[OF s5] obtain x where x: "xml_writer pf ''LCL_OBJECT_CLAS'' v = Inr x"
    "w' = w4\<lparr>files := (files w4)(build_filename name ''.clas'' ''xml'' d \<mapsto> x)\<rparr>"
    by blast
  have "w' = w\<lparr>files := (files w)
          (build_filename name ''.clas'' ''abap'' d \<mapsto> t1,
           build_filename name ''.clas.locals_def'' ''abap'' d \<mapsto> t2,
           build_filename name ''.clas.locals_imp'' ''abap'' d \<mapsto> t3,
           build_filename name ''.clas.testclasses'' ''abap'' d \<mapsto> t4,
           build_filename name ''.clas'' ''xml'' d \<mapsto> x)\<rparr>"
    unfolding x(2) t4(2) t3(2) t2(2) t1(2) by simp
  then show ?thesis using c v t1(1) t2(1) t3(1) t4(1) x(1) by blast
qed

lemma startswith_sep_append:
  "s \<noteq> [] \<Longrightarrow> \<not> startswith_sep s \<Longrightarrow> startswith_sep (n @ s) = startswith_sep n"
  by (cases n) (auto simp: startswith_sep_def split: list.splits)

lemma path_join_inj:
  "startswith_sep a = startswith_sep b \<Longrightarrow> (path_join d a = path_join d b) = (a = b)"
  by (auto simp: path_join_def)

lemma build_filename_name:
  assumes "lower sfx = sfx" "lower ext = ext"
  shows "build_filename name sfx ext d =
    (case d of None \<Rightarrow> lower name @ sfx @ ''.'' @ ext
     | Some dir \<Rightarrow> path_join dir (lower name @ sfx @ ''.'' @ ext))"
proof -
  have "lower ''.'' = ''.''" by code_simp
  then have "lower (name @ sfx @ ''.'' @ ext) = lower name @ sfx @ ''.'' @ ext"
    using assms by (simp only: lower_append)
  then show ?thesis by (simp add: build_filename_def Let_def split: option.splits)
qed

lemma in_dest_inj:
  assumes "s \<noteq> []" "\<not> startswith_sep s" "s' \<noteq> []" "\<not> startswith_sep s'"
  shows "((case d of None \<Rightarrow> n @ s | Some dir \<Rightarrow> path_join dir (n @ s))
        = (case d of None \<Rightarrow> n @ s' | Some dir \<Rightarrow> path_join dir (n @ s'))) = (s = s')"
proof -
  have "startswith_sep (n @ s) = startswith_sep (n @ s')"
    using assms by (simp add: startswith_sep_append)
  then show ?thesis by (cases d) (simp_all add: path_join_inj)
qed

lemma lower_suffixes:
  "lower ''.clas'' = ''.clas''" "lower ''.clas.locals_def'' = ''.clas.locals_def''"
  "lower ''.clas.locals_imp'' = ''.clas.locals_imp''"
  "lower ''.clas.testclasses'' = ''.clas.testclasses''"
  "lower ''.prog'' = ''.prog''" "lower ''.intf'' = ''.intf''"
  "lower ''abap'' = ''abap''" "lower ''xml'' = ''xml''"
  by code_simp+

lemma path_join_relative':
  "\<not> startswith_sep b \<Longrightarrow>
     path_join a b = a @ (if a = [] \<or> endswith_sep a then [] else ''/'') @ b"
  by (simp add: path_join_def)

lemma dirname_join:
  assumes "dir \<noteq> []" "\<not> endswith_sep dir" "CHR ''/'' \<notin> set f"
  shows "dirname (dir @ ''/'' @ f) = dir"
proof -
  have l: "last dir \<noteq> CHR ''/''" using assms by (simp add: endswith_sep_def)
  have rd: "rev dir = last dir # rev (butlast dir)"
    using assms(1) by (cases dir rule: rev_cases) simp_all
  have "dropWhile (\<lambda>c. c \<noteq> CHR ''/'') (rev f @ CHR ''/'' # rev dir)
      = dropWhile (\<lambda>c. c \<noteq> CHR ''/'') (CHR ''/'' # rev dir)"
    by (rule dropWhile_append2) (use assms(3) in auto)
  then have head: "rev (dropWhile (\<lambda>c. c \<noteq> CHR ''/'') (rev (dir @ ''/'' @ f))) = dir @ ''/''"
    by simp
  have ne: "dir @ ''/'' \<noteq> replicate (length (dir @ ''/'')) (CHR ''/'')"
  proof
    assume "dir @ ''/'' = replicate (length (dir @ ''/'')) (CHR ''/'')"
    then have "\<forall>c\<in>set (dir @ ''/''). c = CHR ''/''" by (metis in_set_replicate)
    moreover have "last dir \<in> set (dir @ ''/'')" using assms(1) by simp
    ultimately show False using l by blast
  qed
  have strip: "rev (dropWhile (\<lambda>c. c = CHR ''/'') (rev (dir @ ''/''))) = dir"
    using l assms(1) by (simp add: rd)
  show ?thesis
    unfolding dirname_def Let_def head using ne strip by simp
qed

lemma exporter_paths_in_destdir:
  assumes "\<not> startswith_sep name" "sfx \<noteq> []" "\<not> startswith_sep sfx"
  shows "path_join dir (lower name @ sfx)
     = dir @ (if dir = [] \<or> endswith_sep dir then [] else ''/'') @ lower name @ sfx"
proof -
  have "\<not> startswith_sep (lower name @ sfx)"
    using assms by (simp add: startswith_sep_append startswith_sep_lower_eq)
  then show ?thesis by (rule path_join_relative')
qed

lemma exporter_paths_dirname:
  assumes "CHR ''/'' \<notin> set name" "CHR ''/'' \<notin> set sfx" "sfx \<noteq> []"
    "dir \<noteq> []" "\<not> endswith_sep dir"
  shows "dirname (path_join dir (lower name @ sfx)) = dir"
proof -
  have ns1: "\<not> startswith_sep name"
    using assms(1) by (cases name) (auto simp: startswith_sep_def)
  have ns2: "\<not> startswith_sep sfx"
    using assms(2) by (cases sfx) (auto simp: startswith_sep_def)
  have "CHR ''/'' \<notin> set (lower name @ sfx)" using assms(1,2) by (simp add: sep_in_lower)
  with assms(4,5) have d: "dirname (dir @ ''/'' @ (lower name @ sfx)) = dir"
    by (rule dirname_join)
  have "path_join dir (lower name @ sfx) = dir @ ''/'' @ (lower name @ sfx)"
    unfolding exporter_paths_in_destdir[OF ns1 assms(3) ns2] using assms(4,5) by simp
  then show ?thesis by (simp only: d)
qed

text \<open>
  C6. A successful class checkout of \<open>name\<close> writes five files, with pairwise distinct
  paths: the four sources and the attribute file, named by the lower-cased name and
  joined to the destination directory by \<open>os.path.join\<close>. A successful program or
  interface checkout writes one file. Nothing else changes. When the name does not start
  with the separator, each path is the destination directory, one separator and the file
  name; when the name holds no separator at all, the files lie in the destination
  directory itself.
\<close>

theorem checkout_files_written:
  "let n = lower name;
       dest = (\<lambda>f. case destdir of None \<Rightarrow> f | Some dir \<Rightarrow> path_join dir f)
   in (checkout_class pf conn name destdir w = (Inr (), w') \<longrightarrow>
        (\<exists>c v t1 t2 t3 t4 x.
            class_fetch conn name = Inr c
          \<and> class_text conn name = Inr t1
          \<and> class_definitions_text conn name = Inr t2
          \<and> class_implementations_text conn name = Inr t3
          \<and> class_test_classes_text conn name = Inr t4
          \<and> build_class_abap_attributes pf c = Inr v
          \<and> xml_writer pf ''LCL_OBJECT_CLAS'' v = Inr x
          \<and> w' = w\<lparr>files := (files w)
                (dest (n @ ''.clas.abap'') \<mapsto> t1,
                 dest (n @ ''.clas.locals_def.abap'') \<mapsto> t2,
                 dest (n @ ''.clas.locals_imp.abap'') \<mapsto> t3,
                 dest (n @ ''.clas.testclasses.abap'') \<mapsto> t4,
                 dest (n @ ''.clas.xml'') \<mapsto> x)\<rparr>)
        \<and> distinct [dest (n @ ''.clas.abap''), dest (n @ ''.clas.locals_def.abap''),
             dest (n @ ''.clas.locals_imp.abap''), dest (n @ ''.clas.testclasses.abap''),
             dest (n @ ''.clas.xml'')])
    \<and> (checkout_program pf conn name destdir w = (Inr (), w') \<longrightarrow>
        (\<exists>t. program_text conn name = Inr t
          \<and> w' = w\<lparr>files := (files w)(dest (n @ ''.prog.abap'') \<mapsto> t)\<rparr>))
    \<and> (checkout_interface pf conn name destdir w = (Inr (), w') \<longrightarrow>
        (\<exists>t. interface_text conn name = Inr t
          \<and> w' = w\<lparr>files := (files w)(dest (n @ ''.intf.abap'') \<mapsto> t)\<rparr>))
    \<and> (\<not> startswith_sep name \<longrightarrow>
        (\<forall>dir sfx. destdir = Some dir \<and> sfx \<noteq> [] \<and> \<not> startswith_sep sfx \<longrightarrow>
           dest (n @ sfx)
             = dir @ (if dir = [] \<or> endswith_sep dir then [] else ''/'') @ n @ sfx))
    \<and> (CHR ''/'' \<notin> set name \<longrightarrow>
        (\<forall>dir sfx. destdir = Some dir \<and> dir \<noteq> [] \<and> \<not> endswith_sep dir
             \<and> sfx \<noteq> [] \<and> CHR ''/'' \<notin> set sfx \<longrightarrow>
           dirname (dest (n @ sfx)) = dir))"
proof -
  have names:
    "build_filename name ''.clas'' ''abap'' destdir
      = (case destdir of None \<Rightarrow> lower name @ ''.clas.abap''
         | Some dir \<Rightarrow> path_join dir (lower name @ ''.clas.abap''))"
    "build_filename name ''.clas.locals_def'' ''abap'' destdir
      = (case destdir of None \<Rightarrow> lower name @ ''.clas.locals_def.abap''
         | Some dir \<Rightarrow> path_join dir (lower name @ ''.clas.locals_def.abap''))"
    "build_filename name ''.clas.locals_imp'' ''abap'' destdir
      = (case destdir of None \<Rightarrow> lower name @ ''.clas.locals_imp.abap''
         | Some dir \<Rightarrow> path_join dir (lower name @ ''.clas.locals_imp.abap''))"
    "build_filename name ''.clas.testclasses'' ''abap'' destdir
      = (case destdir of None \<Rightarrow> lower name @ ''.clas.testclasses.abap''
         | Some dir \<Rightarrow> path_join dir (lower name @ ''.clas.testclasses.abap''))"
    "build_filename name ''.clas'' ''xml'' destdir
      = (case destdir of None \<Rightarrow> lower name @ ''.clas.xml''
         | Some dir \<Rightarrow> path_join dir (lower name @ ''.clas.xml''))"
    "build_filename name ''.prog'' ''abap'' destdir
      = (case destdir of None \<Rightarrow> lower name @ ''.prog.abap''
         | Some dir \<Rightarrow> path_join dir (lower name @ ''.prog.abap''))"
    "build_filename name ''.intf'' ''abap'' destdir
      = (case destdir of None \<Rightarrow> lower name @ ''.intf.abap''
         | Some dir \<Rightarrow> path_join dir (lower name @ ''.intf.abap''))"
    by (simp_all add: build_filename_name lower_suffixes split: option.splits)
  have dist: "distinct
     [case destdir of None \<Rightarrow> lower name @ ''.clas.abap''
         | Some dir \<Rightarrow> path_join dir (lower name @ ''.clas.abap''),
      case destdir of None \<Rightarrow> lower name @ ''.clas.locals_def.abap''
         | Some dir \<Rightarrow> path_join dir (lower name @ ''.clas.locals_def.abap''),
      case destdir of None \<Rightarrow> lower name @ ''.clas.locals_imp.abap''
         | Some dir \<Rightarrow> path_join dir (lower name @ ''.clas.locals_imp.abap''),
      case destdir of None \<Rightarrow> lower name @ ''.clas.testclasses.abap''
         | Some dir \<Rightarrow> path_join dir (lower name @ ''.clas.testclasses.abap''),
      case destdir of None \<Rightarrow> lower name @ ''.clas.xml''
         | Some dir \<Rightarrow> path_join dir (lower name @ ''.clas.xml'')]"
    by (simp add: in_dest_inj startswith_sep_def)
  have cls: "checkout_class pf conn name destdir w = (Inr (), w') \<Longrightarrow>
        (\<exists>c v t1 t2 t3 t4 x.
            class_fetch conn name = Inr c
          \<and> class_text conn name = Inr t1
          \<and> class_definitions_text conn name = Inr t2
          \<and> class_implementations_text conn name = Inr t3
          \<and> class_test_classes_text conn name = Inr t4
          \<and> build_class_abap_attributes pf c = Inr v
          \<and> xml_writer pf ''LCL_OBJECT_CLAS'' v = Inr x
          \<and> w' = w\<lparr>files := (files w)
              (build_filename name ''.clas'' ''abap'' destdir \<mapsto> t1,
               build_filename name ''.clas.locals_def'' ''abap'' destdir \<mapsto> t2,
               build_filename name ''.clas.locals_imp'' ''abap'' destdir \<mapsto> t3,
               build_filename name ''.clas.testclasses'' ''abap'' destdir \<mapsto> t4,
               build_filename name ''.clas'' ''xml'' destdir \<mapsto> x)\<rparr>)"
    by (rule checkout_class_success)
  have prog: "checkout_program pf conn name destdir w = (Inr (), w') \<Longrightarrow>
        (\<exists>t. program_text conn name = Inr t
          \<and> w' = w\<lparr>files := (files w)(build_filename name ''.prog'' ''abap'' destdir \<mapsto> t)\<rparr>)"
    unfolding checkout_program_def by (rule download_success)
  have intf: "checkout_interface pf conn name destdir w = (Inr (), w') \<Longrightarrow>
        (\<exists>t. interface_text conn name = Inr t
          \<and> w' = w\<lparr>files := (files w)(build_filename name ''.intf'' ''abap'' destdir \<mapsto> t)\<rparr>)"
    unfolding checkout_interface_def by (rule download_success)
  have place: "\<not> startswith_sep name \<Longrightarrow>
        (\<forall>dir sfx. destdir = Some dir \<and> sfx \<noteq> [] \<and> \<not> startswith_sep sfx \<longrightarrow>
           (case destdir of None \<Rightarrow> lower name @ sfx
            | Some dir \<Rightarrow> path_join dir (lower name @ sfx))
             = dir @ (if dir = [] \<or> endswith_sep dir then [] else ''/'') @ lower name @ sfx)"
    by (auto simp: exporter_paths_in_destdir)
  have inside: "CHR ''/'' \<notin> set name \<Longrightarrow>
        (\<forall>dir sfx. destdir = Some dir \<and> dir \<noteq> [] \<and> \<not> endswith_sep dir
             \<and> sfx \<noteq> [] \<and> CHR ''/'' \<notin> set sfx \<longrightarrow>
           dirname (case destdir of None \<Rightarrow> lower name @ sfx
            | Some dir \<Rightarrow> path_join dir (lower name @ sfx)) = dir)"
    by (auto simp: exporter_paths_dirname)
  show ?thesis
    unfolding Let_def
    using cls[unfolded names] prog[unfolded names] intf[unfolded names] dist place inside
    by (intro conjI impI) assumption+
qed

theorem checkout_files_written_witness:
  "\<exists>w1 w2 w3.
      checkout_class example_platform example_connection ''ZCL_DEMO'' (Some ''/home'') example_world
        = (Inr (), w1)
    \<and> dom (files w1) = {''/home/zcl_demo.clas.abap'', ''/home/zcl_demo.clas.locals_def.abap'',
         ''/home/zcl_demo.clas.locals_imp.abap'', ''/home/zcl_demo.clas.testclasses.abap'',
         ''/home/zcl_demo.clas.xml''}
    \<and> files w1 ''/home/zcl_demo.clas.abap'' = Some ''class ZCL_DEMO''
    \<and> checkout_program example_platform example_connection ''ZProg'' (Some ''/home'') example_world
        = (Inr (), w2)
    \<and> files w2 = [''/home/zprog.prog.abap'' \<mapsto> ''report ZProg'']
    \<and> checkout_interface example_platform example_connection ''ZIF'' None example_world
        = (Inr (), w3)
    \<and> files w3 = [''zif.intf.abap'' \<mapsto> ''interface ZIF'']
    \<and> dirname ''/home/zcl_demo.clas.abap'' = ''/home''"
proof -
  let ?cls = "checkout_class example_platform example_connection ''ZCL_DEMO'' (Some ''/home'')
      example_world"
  let ?prog = "checkout_program example_platform example_connection ''ZProg'' (Some ''/home'')
      example_world"
  let ?intf = "checkout_interface example_platform example_connection ''ZIF'' None example_world"
  have "fst ?cls = Inr ()" by code_simp
  then obtain w1 where c: "?cls = (Inr (), w1)" by (cases ?cls) auto
  have "fst ?prog = Inr ()" by code_simp
  then obtain w2 where p: "?prog = (Inr (), w2)" by (cases ?prog) auto
  have "fst ?intf = Inr ()" by code_simp
  then obtain w3 where i: "?intf = (Inr (), w3)" by (cases ?intf) auto
  have paths:
    "path_join ''/home'' (lower ''ZCL_DEMO'' @ ''.clas.abap'') = ''/home/zcl_demo.clas.abap''"
    "path_join ''/home'' (lower ''ZCL_DEMO'' @ ''.clas.locals_def.abap'')
       = ''/home/zcl_demo.clas.locals_def.abap''"
    "path_join ''/home'' (lower ''ZCL_DEMO'' @ ''.clas.locals_imp.abap'')
       = ''/home/zcl_demo.clas.locals_imp.abap''"
    "path_join ''/home'' (lower ''ZCL_DEMO'' @ ''.clas.testclasses.abap'')
       = ''/home/zcl_demo.clas.testclasses.abap''"
    "path_join ''/home'' (lower ''ZCL_DEMO'' @ ''.clas.xml'') = ''/home/zcl_demo.clas.xml''"
    "path_join ''/home'' (lower ''ZProg'' @ ''.prog.abap'') = ''/home/zprog.prog.abap''"
    "lower ''ZIF'' @ ''.intf.abap'' = ''zif.intf.abap''"
    by code_simp+
  from checkout_files_written[where name = "''ZCL_DEMO''" and destdir = "Some ''/home''"
      and pf = example_platform and conn = example_connection and w = example_world and w' = w1,
      unfolded Let_def, THEN conjunct1, rule_format, OF c]
  obtain t1 t2 t3 t4 x where
    t1: "class_text example_connection ''ZCL_DEMO'' = Inr t1"
    and w1: "w1 = example_world\<lparr>files := (files example_world)
                (''/home/zcl_demo.clas.abap'' \<mapsto> t1,
                 ''/home/zcl_demo.clas.locals_def.abap'' \<mapsto> t2,
                 ''/home/zcl_demo.clas.locals_imp.abap'' \<mapsto> t3,
                 ''/home/zcl_demo.clas.testclasses.abap'' \<mapsto> t4,
                 ''/home/zcl_demo.clas.xml'' \<mapsto> x)\<rparr>"
    unfolding option.case paths by blast
  have t1': "t1 = ''class ZCL_DEMO''" using t1 by (simp add: example_connection_def)
  have r1: "dom (files w1) = {''/home/zcl_demo.clas.abap'', ''/home/zcl_demo.clas.locals_def.abap'',
         ''/home/zcl_demo.clas.locals_imp.abap'', ''/home/zcl_demo.clas.testclasses.abap'',
         ''/home/zcl_demo.clas.xml''}"
    "files w1 ''/home/zcl_demo.clas.abap'' = Some ''class ZCL_DEMO''"
    unfolding w1 t1' by (auto simp: example_world_def)
  from checkout_files_written[where name = "''ZProg''" and destdir = "Some ''/home''"
      and pf = example_platform and conn = example_connection and w = example_world and w' = w2,
      unfolded Let_def, THEN conjunct2, THEN conjunct1, rule_format, OF p]
  obtain t where "program_text example_connection ''ZProg'' = Inr t"
    "w2 = example_world\<lparr>files := (files example_world)(''/home/zprog.prog.abap'' \<mapsto> t)\<rparr>"
    unfolding option.case paths by blast
  then have r2: "files w2 = [''/home/zprog.prog.abap'' \<mapsto> ''report ZProg'']"
    by (auto simp: example_connection_def example_world_def)
  from checkout_files_written[where name = "''ZIF''" and destdir = None
      and pf = example_platform and conn = example_connection and w = example_world and w' = w3,
      unfolded Let_def, THEN conjunct2, THEN conjunct2, THEN conjunct1, rule_format, OF i]
  obtain t where "interface_text example_connection ''ZIF'' = Inr t"
    "w3 = example_world\<lparr>files := (files example_world)(''zif.intf.abap'' \<mapsto> t)\<rparr>"
    unfolding option.case paths by blast
  then have r3: "files w3 = [''zif.intf.abap'' \<mapsto> ''interface ZIF'']"
    by (auto simp: example_connection_def example_world_def)
  have nosep: "CHR ''/'' \<notin> set ''ZCL_DEMO''" by simp
  have cond: "Some ''/home'' = Some ''/home'' \<and> ''/home'' \<noteq> [] \<and> \<not> endswith_sep ''/home''
      \<and> ''.clas.abap'' \<noteq> [] \<and> CHR ''/'' \<notin> set ''.clas.abap''"
    by (simp add: endswith_sep_def)
  have r4: "dirname ''/home/zcl_demo.clas.abap'' = ''/home''"
    using checkout_files_written[where name = "''ZCL_DEMO''" and destdir = "Some ''/home''",
        unfolded Let_def, THEN conjunct2, THEN conjunct2, THEN conjunct2, THEN conjunct2,
        rule_format, OF nosep cond]
    unfolding option.case paths .
  show ?thesis using c p i r1 r2 r3 r4 by blast
qed

text \<open>A name that starts with the separator (a class in a namespace) is not written
  into the destination directory: \<open>os.path.join\<close> drops the directory, and the files go
  where the lower-cased name points.\<close>

theorem checkout_class_counterexample:
  "fst (checkout_class example_platform namespace_connection ''/TMP/ZCL_X'' (Some ''/home/repo'')
        tmp_world) = Inr ()
   \<and> files (snd (checkout_class example_platform namespace_connection ''/TMP/ZCL_X''
        (Some ''/home/repo'') tmp_world)) ''/tmp/zcl_x.clas.abap'' = Some ''class /TMP/ZCL_X''
   \<and> files (snd (checkout_class example_platform namespace_connection ''/TMP/ZCL_X''
        (Some ''/home/repo'') tmp_world)) ''/tmp/zcl_x.clas.xml'' = Some ''<LCL_OBJECT_CLAS>ZCL_DEMO''
   \<and> files (snd (checkout_class example_platform namespace_connection ''/TMP/ZCL_X''
        (Some ''/home/repo'') tmp_world)) (''/home/repo'' @ ''/'' @ lower ''/TMP/ZCL_X'' @ ''.clas.abap'')
       = None
   \<and> dirname ''/tmp/zcl_x.clas.abap'' = ''/tmp''"
  by code_simp

section \<open>Initializing the repository directory\<close>

lemma normpath_absolute: "startswith_sep p \<Longrightarrow> startswith_sep (normpath p)"
proof -
  assume a: "startswith_sep p"
  then have ne: "p \<noteq> []" by (auto simp: startswith_sep_def)
  have init: "initial_slashes p = 1 \<or> initial_slashes p = 2"
    using a by (simp add: initial_slashes_def)
  then show ?thesis
    using ne by (auto simp: normpath_def Let_def startswith_sep_def numeral_2_eq_2)
qed

lemma abspath_absolute: "startswith_sep (cwd w) \<Longrightarrow> startswith_sep (abspath w p)"
proof -
  assume a: "startswith_sep (cwd w)"
  have "startswith_sep (if startswith_sep p then p else path_join (cwd w) p)"
    using a by (cases "cwd w") (auto simp: path_join_def startswith_sep_def)
  then show ?thesis unfolding abspath_def by (rule normpath_absolute)
qed

text \<open>
  C8. When repository initialization returns, it returns the absolute path of the
  directory argument (of the package name when no directory is given), that directory
  exists, and the only file written is \<open>.abapgit.xml\<close> directly under it, holding the
  serialization of a record whose starting folder is the configured folder between two
  separators.
\<close>

theorem make_repo_dir_for_package_result:
  assumes run: "make_repo_dir_for_package pf a w = (Inr r, w')"
  shows "r = abspath w (case arg_directory a of None \<Rightarrow> arg_name a
                        | Some d \<Rightarrow> if d = [] then arg_name a else d)
    \<and> (startswith_sep (cwd w) \<longrightarrow> startswith_sep r)
    \<and> isdir r w'
    \<and> (\<exists>x. to_xml pf (for_new_repo (''/'' @ arg_starting_folder a @ ''/'')) = Inr x
          \<and> files w' = (files w)(path_join r ''.abapgit.xml'' \<mapsto> x))
    \<and> STARTING_FOLDER (for_new_repo (''/'' @ arg_starting_folder a @ ''/''))
          = ''/'' @ arg_starting_folder a @ ''/''
    \<and> path_join r ''.abapgit.xml''
          = (if endswith_sep r then r @ ''.abapgit.xml'' else r @ ''/.abapgit.xml'')
    \<and> stderr w' = stderr w \<and> cwd w' = cwd w"
proof -
  define r0 where "r0 = (case arg_directory a of None \<Rightarrow> arg_name a
                       | Some d \<Rightarrow> if d = [] then arg_name a else d)"
  define rd where "rd = abspath w r0"
  define rf where "rf = path_join rd ''.abapgit.xml''"
  define dot where "dot = for_new_repo (''/'' @ arg_starting_folder a @ ''/'')"
  define step where "step = (\<lambda>w::world. if \<not> isdir rd w then makedirs rd w else (Inr (), w))"
  define rest where "rest = (\<lambda>w2. case to_xml pf dot of
                  Inl e \<Rightarrow> (Inl e, w2)
                | Inr x \<Rightarrow> (Inr rd, write_text rf x w2))"
  have unfold: "make_repo_dir_for_package pf a w =
      bind (step w) (\<lambda>_ wa. bind (open_w rf wa) (\<lambda>_. rest))"
    unfolding make_repo_dir_for_package_def Let_def step_def rest_def rf_def dot_def rd_def r0_def ..
  from run[unfolded unfold] obtain u wa where sa: "step w = (Inr u, wa)"
    and 2: "bind (open_w rf wa) (\<lambda>_. rest) = (Inr r, w')"
    by (rule bind_InrE)
  from 2 obtain u' wb where ob: "open_w rf wa = (Inr u', wb)" and 3: "rest wb = (Inr r, w')"
    by (rule bind_InrE)
  from 3 obtain x where x: "to_xml pf dot = Inr x" and res: "r = rd" "w' = write_text rf x wb"
    by (cases "to_xml pf dot") (auto simp: rest_def)
  have wa: "rd \<in> dirs wa" "cwd wa = cwd w" "files wa = files w" "stderr wa = stderr w"
    using sa makedirs_Inr[of rd w u wa] by (auto simp: step_def isdir_def split: if_splits)
  have wb: "wb = wa\<lparr>files := (files wa)(rf \<mapsto> [])\<rparr>" using ob by (rule open_w_files)
  have w': "dirs w' = dirs wa" "cwd w' = cwd w" "stderr w' = stderr w"
    "files w' = (files w)(rf \<mapsto> x)"
    using res wa wb by (simp_all add: write_text_def)
  have pj: "path_join r ''.abapgit.xml''
          = (if endswith_sep r then r @ ''.abapgit.xml'' else r @ ''/.abapgit.xml'')"
    using abspath_nonempty[of w r0] res
    by (simp add: path_join_def startswith_sep_def rd_def)
  have sf: "STARTING_FOLDER (for_new_repo (''/'' @ arg_starting_folder a @ ''/''))
          = ''/'' @ arg_starting_folder a @ ''/''"
    by (simp add: for_new_repo_def)
  have ab: "startswith_sep (cwd w) \<longrightarrow> startswith_sep r"
    using res by (simp add: rd_def abspath_absolute)
  have "isdir r w'" using w' wa res by (simp add: isdir_def)
  moreover have "r = abspath w r0" using res by (simp add: rd_def)
  moreover have "\<exists>x. to_xml pf dot = Inr x \<and> files w' = (files w)(path_join r ''.abapgit.xml'' \<mapsto> x)"
    using x w' res by (simp add: rf_def)
  ultimately show ?thesis
    using ab sf pj w' unfolding r0_def dot_def by blast
qed

theorem make_repo_dir_for_package_result_witness:
  "\<exists>w'. make_repo_dir_for_package example_platform example_args example_world
        = (Inr ''/home/ZPKG'', w')
     \<and> isdir ''/home/ZPKG'' w'
     \<and> files w' = [''/home/ZPKG/.abapgit.xml'' \<mapsto> ''<DATA>/src/'']"
proof -
  let ?run = "make_repo_dir_for_package example_platform example_args example_world"
  have "fst ?run = Inr ''/home/ZPKG''" by code_simp
  then obtain w' where run: "?run = (Inr ''/home/ZPKG'', w')" by (cases ?run) auto
  have j: "path_join ''/home/ZPKG'' ''.abapgit.xml'' = ''/home/ZPKG/.abapgit.xml''" by code_simp
  from make_repo_dir_for_package_result[OF run]
  obtain x where d: "isdir ''/home/ZPKG'' w'"
    and x: "to_xml example_platform (for_new_repo (''/'' @ arg_starting_folder example_args @ ''/''))
      = Inr x"
    and f: "files w' = (files example_world)(''/home/ZPKG/.abapgit.xml'' \<mapsto> x)"
    unfolding j by blast
  have "x = ''<DATA>/src/''"
    using x by (simp add: example_platform_def example_args_def for_new_repo_def)
  then show ?thesis using run d f by (auto simp: example_world_def)
qed

section \<open>Package traversal\<close>

lemma bind_return: "bind r (\<lambda>_ w. (Inr (), w)) = (r :: unit result)"
proof (cases r)
  case (Pair a w)
  then show ?thesis by (cases a) simp_all
qed





section \<open>Dispatch and unsupported objects\<close>

lemma checkouters_None:
  "(checkouters t = None) = (t \<notin> {''PROG/P'', ''CLAS/OC'', ''INTF/OI''})"
  by (simp add: checkouters_def)

lemma bind_assoc: "bind (bind r f) g = bind r (\<lambda>x w. bind (f x w) g)"
proof (cases r)
  case (Pair a w)
  then show ?thesis by (cases a) simp_all
qed

lemma checkout_loop_append:
  "checkout_loop pf conn d (xs @ ys) w
     = bind (checkout_loop pf conn d xs w) (\<lambda>_. checkout_loop pf conn d ys)"
proof (induction xs arbitrary: w)
  case Nil
  show ?case by simp
next
  case (Cons x xs)
  have "checkout_loop pf conn d (xs @ ys)
      = (\<lambda>w. bind (checkout_loop pf conn d xs w) (\<lambda>_. checkout_loop pf conn d ys))"
    by (rule ext) (rule Cons.IH)
  then show ?case by (simp add: bind_assoc)
qed

lemma checkout_object_unsupported:
  "checkouters (obj_typ obj) = None \<Longrightarrow>
     checkout_object pf conn d obj w = (Inr (), w\<lparr>stderr := stderr w @ [unsupported_line obj]\<rparr>)"
  by (simp add: checkout_object_def checkout_try_def print_stderr_def)

lemma checkout_try_success_stderr:
  assumes "checkout_try pf conn d obj w = (Inr u, w1)"
  shows "stderr w1 = stderr w"
proof (cases "checkouters (obj_typ obj)")
  case None
  then show ?thesis using assms by (simp add: checkout_try_def)
next
  case (Some f)
  then have run: "f pf conn (obj_name obj) d w = (Inr (), w1)"
    using assms by (simp add: checkout_try_def)
  from checkouters_cases[OF Some] show ?thesis
  proof (elim disjE)
    assume "f = checkout_program"
    with run have "download_abap_source (obj_name obj) (program_text conn (obj_name obj))
        ''.prog'' d w = (Inr (), w1)" by (simp add: checkout_program_def)
    from download_success[OF this] show ?thesis by auto
  next
    assume "f = checkout_class"
    with run have "checkout_class pf conn (obj_name obj) d w = (Inr (), w1)" by simp
    from checkout_class_success[OF this] show ?thesis by auto
  next
    assume "f = checkout_interface"
    with run have "download_abap_source (obj_name obj) (interface_text conn (obj_name obj))
        ''.intf'' d w = (Inr (), w1)" by (simp add: checkout_interface_def)
    from download_success[OF this] show ?thesis by auto
  qed
qed

lemma checkout_loop_stderr:
  assumes noKey: "\<And>obj w0. obj \<in> set objs \<Longrightarrow> checkouters (obj_typ obj) \<noteq> None \<Longrightarrow>
       fst (checkout_try pf conn d obj w0) \<noteq> Inl KeyError"
    and run: "checkout_loop pf conn d objs w = (Inr (), w')"
  shows "stderr w' = stderr w
     @ map unsupported_line (filter (\<lambda>obj. checkouters (obj_typ obj) = None) objs)"
  using assms
proof (induction objs arbitrary: w)
  case Nil
  then show ?case by simp
next
  case (Cons obj objs)
  from Cons.prems(2) obtain u w1 where step: "checkout_object pf conn d obj w = (Inr u, w1)"
    and rest: "checkout_loop pf conn d objs w1 = (Inr (), w')"
    by (auto elim: bind_InrE)
  have ih: "stderr w' = stderr w1
     @ map unsupported_line (filter (\<lambda>obj. checkouters (obj_typ obj) = None) objs)"
    using Cons.IH[OF _ rest] Cons.prems(1) by simp
  show ?case
  proof (cases "checkouters (obj_typ obj)")
    case None
    with step have "stderr w1 = stderr w @ [unsupported_line obj]"
      by (auto simp: checkout_object_unsupported)
    then show ?thesis using ih None by simp
  next
    case (Some f)
    obtain r wt where t: "checkout_try pf conn d obj w = (r, wt)"
      by (cases "checkout_try pf conn d obj w")
    have "r \<noteq> Inl KeyError" using Cons.prems(1)[of obj w] Some t by simp
    with step t have "r = Inr ()" "wt = w1"
      by (cases r; auto simp: checkout_object_def split: if_splits)+
    with t have "stderr w1 = stderr w" using checkout_try_success_stderr by blast
    then show ?thesis using ih Some by simp
  qed
qed

lemma checkout_object_known:
  "checkouters (obj_typ obj) = Some f \<Longrightarrow>
     checkout_object pf conn d obj w =
       (case f pf conn (obj_name obj) d w of
          (Inl e, w1) \<Rightarrow>
            (if e = KeyError
             then (Inr (), w1\<lparr>stderr := stderr w1 @ [unsupported_line obj]\<rparr>)
             else (Inl e, w1))
        | (Inr u, w1) \<Rightarrow> (Inr u, w1))"
  by (simp add: checkout_object_def checkout_try_def print_stderr_def
      split: prod.splits sum.splits)

lemma checkout_objects_nil:
  "checkout_objects pf conn [] (Some dir) w = (if isdir dir w then (Inr (), w) else makedirs dir w)"
proof -
  have "checkout_loop pf conn (Some dir) [] = (\<lambda>w. (Inr (), w))" by (rule ext) simp
  then show ?thesis by (simp add: checkout_objects_def bind_return)
qed

lemma checkout_objects_isdir:
  assumes "checkout_objects pf conn objs (Some dir) w = (Inr u, w1)"
  shows "isdir dir w1"
proof -
  have run: "checkout_objects pf conn objs (Some dir) w = (Inr (), w1)" using assms by simp
  from checkout_objects_start[OF run] obtain wm where wm: "dir \<in> dirs wm"
    and eq: "checkout_objects pf conn objs (Some dir) w = checkout_loop pf conn (Some dir) objs wm"
    by blast
  have "dirs (snd (checkout_loop pf conn (Some dir) objs wm)) = dirs wm"
    using keeps_dirs_checkout_loop[of pf conn "Some dir" objs] by (simp add: keeps_dirs_def)
  moreover have "checkout_loop pf conn (Some dir) objs wm = (Inr (), w1)" using eq run by simp
  ultimately show ?thesis using wm by (simp add: isdir_def)
qed

lemma checkout_objects_split:
  "checkout_objects pf conn (xs @ obj # ys) (Some dir) w =
     bind (checkout_objects pf conn xs (Some dir) w) (\<lambda>_ w1.
       bind (checkout_object pf conn (Some dir) obj w1) (\<lambda>_ w2.
         checkout_objects pf conn ys (Some dir) w2))"
proof -
  let ?mk = "if \<not> isdir dir w then makedirs dir w else (Inr (), w)"
  have loop: "checkout_loop pf conn (Some dir) (xs @ obj # ys) =
      (\<lambda>w0. bind (checkout_loop pf conn (Some dir) xs w0) (\<lambda>_ w1.
         bind (checkout_object pf conn (Some dir) obj w1) (\<lambda>_.
           checkout_loop pf conn (Some dir) ys)))"
  proof -
    have "checkout_loop pf conn (Some dir) (obj # ys) =
        (\<lambda>w1. bind (checkout_object pf conn (Some dir) obj w1) (\<lambda>_.
           checkout_loop pf conn (Some dir) ys))"
      by (rule ext) simp
    then show ?thesis by (intro ext) (simp only: checkout_loop_append)
  qed
  have lhs: "checkout_objects pf conn (xs @ obj # ys) (Some dir) w =
      bind (checkout_objects pf conn xs (Some dir) w) (\<lambda>_ w1.
         bind (checkout_object pf conn (Some dir) obj w1) (\<lambda>_.
           checkout_loop pf conn (Some dir) ys))"
    unfolding checkout_objects_def option.case loop by (simp only: bind_assoc)
  obtain r w1 where first: "checkout_objects pf conn xs (Some dir) w = (r, w1)"
    by (cases "checkout_objects pf conn xs (Some dir) w")
  show ?thesis
  proof (cases r)
    case (Inl e)
    then show ?thesis unfolding lhs first by simp
  next
    case (Inr u)
    with first have d1: "isdir dir w1" using checkout_objects_isdir by blast
    obtain r2 w2 where step: "checkout_object pf conn (Some dir) obj w1 = (r2, w2)"
      by (cases "checkout_object pf conn (Some dir) obj w1")
    have "dirs w2 = dirs w1"
      using keeps_dirs_checkout_object[of pf conn "Some dir" obj] step
      by (auto simp: keeps_dirs_def dest: spec[of _ w1])
    then have d2: "isdir dir w2" using d1 by (simp add: isdir_def)
    show ?thesis
      unfolding lhs first Inr using step d2
      by (cases r2) (simp_all add: checkout_objects_existing)
  qed
qed

text \<open>
  C1. \<open>checkout_objects\<close> ensures the directory and then handles the objects one after
  the other, whatever stands before or after an object in the list. An object whose type
  is \<open>PROG/P\<close>, \<open>CLAS/OC\<close> or \<open>INTF/OI\<close> is handed to the program, class or
  interface exporter, whose outcome is the outcome of the step (but for a \<open>KeyError\<close>
  of the exporter, which the handler takes). An object of any other type changes nothing
  but the error stream, to which it adds the one line
  \<open>Unsupported object: <type> <name>\<close>, and the loop goes on with the objects after it.
  In a run that completes, with exporters that raise no \<open>KeyError\<close>, the lines added to
  the error stream are those of the unsupported objects, one each, in list order.
\<close>

theorem checkout_objects_dispatch:
  "let line = ''Unsupported object: '' @ obj_typ obj @ '' '' @ obj_name obj;
       caught = (\<lambda>r :: unit result. case r of
                   (Inl e, w1) \<Rightarrow>
                     (if e = KeyError then (Inr (), w1\<lparr>stderr := stderr w1 @ [line]\<rparr>)
                      else (Inl e, w1))
                 | (Inr u, w1) \<Rightarrow> (Inr u, w1))
   in checkout_objects pf conn [] (Some dir) w
        = (if isdir dir w then (Inr (), w) else makedirs dir w)
    \<and> checkout_objects pf conn (xs @ obj # ys) (Some dir) w
        = bind (checkout_objects pf conn xs (Some dir) w) (\<lambda>_ w1.
            bind (checkout_object pf conn (Some dir) obj w1) (\<lambda>_ w2.
              checkout_objects pf conn ys (Some dir) w2))
    \<and> (obj_typ obj = ''PROG/P'' \<longrightarrow>
        checkout_object pf conn d obj w
          = caught (checkout_program pf conn (obj_name obj) d w))
    \<and> (obj_typ obj = ''CLAS/OC'' \<longrightarrow>
        checkout_object pf conn d obj w
          = caught (checkout_class pf conn (obj_name obj) d w))
    \<and> (obj_typ obj = ''INTF/OI'' \<longrightarrow>
        checkout_object pf conn d obj w
          = caught (checkout_interface pf conn (obj_name obj) d w))
    \<and> (obj_typ obj \<notin> {''PROG/P'', ''CLAS/OC'', ''INTF/OI''} \<longrightarrow>
        checkout_object pf conn d obj w = (Inr (), w\<lparr>stderr := stderr w @ [line]\<rparr>)
        \<and> checkout_loop pf conn d (xs @ obj # ys) w
          = bind (checkout_loop pf conn d xs w) (\<lambda>_ w1.
              checkout_loop pf conn d ys (w1\<lparr>stderr := stderr w1 @ [line]\<rparr>)))
    \<and> ((\<forall>ob\<in>set objs. \<forall>w0. obj_typ ob \<in> {''PROG/P'', ''CLAS/OC'', ''INTF/OI''} \<longrightarrow>
            fst (checkout_try pf conn d ob w0) \<noteq> Inl KeyError)
         \<and> checkout_loop pf conn d objs w = (Inr (), w') \<longrightarrow>
        stderr w' = stderr w
          @ map (\<lambda>ob. ''Unsupported object: '' @ obj_typ ob @ '' '' @ obj_name ob)
              (filter (\<lambda>ob. obj_typ ob \<notin> {''PROG/P'', ''CLAS/OC'', ''INTF/OI''}) objs))
    \<and> (obj_typ obj = ''PROG/P'' \<longrightarrow>
        checkout_try pf conn d obj w = checkout_program pf conn (obj_name obj) d w)
    \<and> (obj_typ obj = ''CLAS/OC'' \<longrightarrow>
        checkout_try pf conn d obj w = checkout_class pf conn (obj_name obj) d w)
    \<and> (obj_typ obj = ''INTF/OI'' \<longrightarrow>
        checkout_try pf conn d obj w = checkout_interface pf conn (obj_name obj) d w)"
  unfolding Let_def
proof (intro conjI impI)
  show "checkout_objects pf conn [] (Some dir) w
        = (if isdir dir w then (Inr (), w) else makedirs dir w)"
    by (rule checkout_objects_nil)
next
  show "checkout_objects pf conn (xs @ obj # ys) (Some dir) w
        = bind (checkout_objects pf conn xs (Some dir) w) (\<lambda>_ w1.
            bind (checkout_object pf conn (Some dir) obj w1) (\<lambda>_ w2.
              checkout_objects pf conn ys (Some dir) w2))"
    by (rule checkout_objects_split)
next
  assume "obj_typ obj = ''PROG/P''"
  then have "checkouters (obj_typ obj) = Some checkout_program" by (simp add: checkouters_def)
  from checkout_object_known[OF this, unfolded unsupported_line_def]
  show "checkout_object pf conn d obj w
      = (case checkout_program pf conn (obj_name obj) d w of
           (Inl e, w1) \<Rightarrow>
             (if e = KeyError
              then (Inr (), w1\<lparr>stderr := stderr w1
                @ [''Unsupported object: '' @ obj_typ obj @ '' '' @ obj_name obj]\<rparr>)
              else (Inl e, w1))
         | (Inr u, w1) \<Rightarrow> (Inr u, w1))" .
next
  assume "obj_typ obj = ''CLAS/OC''"
  then have "checkouters (obj_typ obj) = Some checkout_class" by (simp add: checkouters_def)
  from checkout_object_known[OF this, unfolded unsupported_line_def]
  show "checkout_object pf conn d obj w
      = (case checkout_class pf conn (obj_name obj) d w of
           (Inl e, w1) \<Rightarrow>
             (if e = KeyError
              then (Inr (), w1\<lparr>stderr := stderr w1
                @ [''Unsupported object: '' @ obj_typ obj @ '' '' @ obj_name obj]\<rparr>)
              else (Inl e, w1))
         | (Inr u, w1) \<Rightarrow> (Inr u, w1))" .
next
  assume "obj_typ obj = ''INTF/OI''"
  then have "checkouters (obj_typ obj) = Some checkout_interface" by (simp add: checkouters_def)
  from checkout_object_known[OF this, unfolded unsupported_line_def]
  show "checkout_object pf conn d obj w
      = (case checkout_interface pf conn (obj_name obj) d w of
           (Inl e, w1) \<Rightarrow>
             (if e = KeyError
              then (Inr (), w1\<lparr>stderr := stderr w1
                @ [''Unsupported object: '' @ obj_typ obj @ '' '' @ obj_name obj]\<rparr>)
              else (Inl e, w1))
         | (Inr u, w1) \<Rightarrow> (Inr u, w1))" .
next
  assume "obj_typ obj = ''PROG/P''"
  then show "checkout_try pf conn d obj w = checkout_program pf conn (obj_name obj) d w"
    by (simp add: checkout_try_def checkouters_def)
next
  assume "obj_typ obj = ''CLAS/OC''"
  then show "checkout_try pf conn d obj w = checkout_class pf conn (obj_name obj) d w"
    by (simp add: checkout_try_def checkouters_def)
next
  assume "obj_typ obj = ''INTF/OI''"
  then show "checkout_try pf conn d obj w = checkout_interface pf conn (obj_name obj) d w"
    by (simp add: checkout_try_def checkouters_def)
next
  assume "obj_typ obj \<notin> {''PROG/P'', ''CLAS/OC'', ''INTF/OI''}"
  then have n: "checkouters (obj_typ obj) = None" by (simp add: checkouters_None)
  show "checkout_object pf conn d obj w
        = (Inr (), w\<lparr>stderr := stderr w
             @ [''Unsupported object: '' @ obj_typ obj @ '' '' @ obj_name obj]\<rparr>)"
    using checkout_object_unsupported[OF n] by (simp add: unsupported_line_def)
next
  assume "obj_typ obj \<notin> {''PROG/P'', ''CLAS/OC'', ''INTF/OI''}"
  then have n: "checkouters (obj_typ obj) = None" by (simp add: checkouters_None)
  show "checkout_loop pf conn d (xs @ obj # ys) w
        = bind (checkout_loop pf conn d xs w) (\<lambda>_ w1.
            checkout_loop pf conn d ys (w1\<lparr>stderr := stderr w1
             @ [''Unsupported object: '' @ obj_typ obj @ '' '' @ obj_name obj]\<rparr>))"
  proof -
    have "checkout_loop pf conn d (obj # ys)
        = (\<lambda>w1. checkout_loop pf conn d ys (w1\<lparr>stderr := stderr w1
             @ [''Unsupported object: '' @ obj_typ obj @ '' '' @ obj_name obj]\<rparr>))"
      by (rule ext) (simp add: checkout_object_unsupported[OF n] unsupported_line_def)
    then show ?thesis by (simp only: checkout_loop_append)
  qed
next
  assume a: "(\<forall>ob\<in>set objs. \<forall>w0. obj_typ ob \<in> {''PROG/P'', ''CLAS/OC'', ''INTF/OI''} \<longrightarrow>
          fst (checkout_try pf conn d ob w0) \<noteq> Inl KeyError)
       \<and> checkout_loop pf conn d objs w = (Inr (), w')"
  have "stderr w' = stderr w
     @ map unsupported_line (filter (\<lambda>obj. checkouters (obj_typ obj) = None) objs)"
  proof (rule checkout_loop_stderr)
    fix obj w0
    assume "obj \<in> set objs" "checkouters (obj_typ obj) \<noteq> None"
    then show "fst (checkout_try pf conn d obj w0) \<noteq> Inl KeyError"
      using a by (auto simp: checkouters_None)
  next
    show "checkout_loop pf conn d objs w = (Inr (), w')" using a by simp
  qed
  then show "stderr w' = stderr w
        @ map (\<lambda>ob. ''Unsupported object: '' @ obj_typ ob @ '' '' @ obj_name ob)
            (filter (\<lambda>ob. obj_typ ob \<notin> {''PROG/P'', ''CLAS/OC'', ''INTF/OI''}) objs)"
    by (simp only: checkouters_None unsupported_line_def[abs_def])
qed

theorem checkout_objects_dispatch_witness:
  "fst (checkout_objects example_platform example_connection example_objects (Some ''/home'')
        example_world) = Inr ()
   \<and> files (snd (checkout_objects example_platform example_connection example_objects
        (Some ''/home'') example_world)) ''/home/zprog.prog.abap'' = Some ''report ZPROG''
   \<and> stderr (snd (checkout_objects example_platform example_connection example_objects
        (Some ''/home'') example_world)) = [''Unsupported object: TABL/DT ZTAB'']
   \<and> files (snd (checkout_object example_platform example_connection (Some ''/home'')
        \<lparr>obj_typ = ''PROG/P'', obj_name = ''ZPROG''\<rparr> example_world))
        ''/home/zprog.prog.abap'' = Some ''report ZPROG''
   \<and> files (snd (checkout_object example_platform example_connection (Some ''/home'')
        \<lparr>obj_typ = ''CLAS/OC'', obj_name = ''ZCL_DEMO''\<rparr> example_world))
        ''/home/zcl_demo.clas.locals_imp.abap'' = Some ''imps''
   \<and> files (snd (checkout_object example_platform example_connection (Some ''/home'')
        \<lparr>obj_typ = ''INTF/OI'', obj_name = ''ZIF''\<rparr> example_world))
        ''/home/zif.intf.abap'' = Some ''interface ZIF''
   \<and> checkout_object example_platform example_connection (Some ''/home'')
          \<lparr>obj_typ = ''TABL/DT'', obj_name = ''ZTAB''\<rparr> example_world
        = (Inr (), example_world\<lparr>stderr := [''Unsupported object: TABL/DT ZTAB'']\<rparr>)
   \<and> (\<exists>w'. checkout_loop example_platform example_connection (Some ''/home'') example_objects
          example_world = (Inr (), w')
        \<and> stderr w' = [''Unsupported object: TABL/DT ZTAB''])"
proof -
  let ?d = "Some ''/home''"
  let ?prog = "\<lparr>obj_typ = ''PROG/P'', obj_name = ''ZPROG''\<rparr>"
  let ?clas = "\<lparr>obj_typ = ''CLAS/OC'', obj_name = ''ZCL_DEMO''\<rparr>"
  let ?intf = "\<lparr>obj_typ = ''INTF/OI'', obj_name = ''ZIF''\<rparr>"
  let ?tabl = "\<lparr>obj_typ = ''TABL/DT'', obj_name = ''ZTAB''\<rparr>"
  note inst = checkout_objects_dispatch[where pf = example_platform and conn = example_connection
      and d = ?d and dir = "''/home''" and w = example_world, unfolded Let_def]
  have tp: "obj_typ ?prog = ''PROG/P''" and tc: "obj_typ ?clas = ''CLAS/OC''"
    and ti: "obj_typ ?intf = ''INTF/OI''"
    and tt: "obj_typ ?tabl \<notin> {''PROG/P'', ''CLAS/OC'', ''INTF/OI''}"
    by simp_all
  have objs: "example_objects = [] @ ?prog # [?tabl]" by (simp add: example_objects_def)
  note split = inst[where xs = "[]" and obj = ?prog and ys = "[?tabl]",
      THEN conjunct2, THEN conjunct1, folded objs]
  have r1: "fst (checkout_objects example_platform example_connection example_objects ?d
        example_world) = Inr ()"
    unfolding split by code_simp
  have r2: "files (snd (checkout_objects example_platform example_connection example_objects
        ?d example_world)) ''/home/zprog.prog.abap'' = Some ''report ZPROG''"
    unfolding split by code_simp
  have r3: "stderr (snd (checkout_objects example_platform example_connection example_objects
        ?d example_world)) = [''Unsupported object: TABL/DT ZTAB'']"
    unfolding split by code_simp
  note p = inst[where obj = ?prog, THEN conjunct2, THEN conjunct2, THEN conjunct1,
      rule_format, OF tp]
  note c = inst[where obj = ?clas, THEN conjunct2, THEN conjunct2, THEN conjunct2,
      THEN conjunct1, rule_format, OF tc]
  note i = inst[where obj = ?intf, THEN conjunct2, THEN conjunct2, THEN conjunct2,
      THEN conjunct2, THEN conjunct1, rule_format, OF ti]
  have r4: "files (snd (checkout_object example_platform example_connection ?d ?prog
        example_world)) ''/home/zprog.prog.abap'' = Some ''report ZPROG''"
    unfolding p by code_simp
  have r5: "files (snd (checkout_object example_platform example_connection ?d ?clas
        example_world)) ''/home/zcl_demo.clas.locals_imp.abap'' = Some ''imps''"
    unfolding c by code_simp
  have r6: "files (snd (checkout_object example_platform example_connection ?d ?intf
        example_world)) ''/home/zif.intf.abap'' = Some ''interface ZIF''"
    unfolding i by code_simp
  have r7: "checkout_object example_platform example_connection ?d ?tabl example_world
        = (Inr (), example_world\<lparr>stderr := [''Unsupported object: TABL/DT ZTAB'']\<rparr>)"
    using inst[where obj = ?tabl, THEN conjunct2, THEN conjunct2, THEN conjunct2,
        THEN conjunct2, THEN conjunct2, THEN conjunct1, rule_format, OF tt, THEN conjunct1]
    by (simp add: example_world_def)
  let ?run = "checkout_loop example_platform example_connection ?d example_objects example_world"
  have "fst ?run = Inr ()" by code_simp
  then obtain w' where run: "?run = (Inr (), w')" by (cases ?run) auto
  have nokey: "\<forall>ob\<in>set example_objects. \<forall>w0.
      obj_typ ob \<in> {''PROG/P'', ''CLAS/OC'', ''INTF/OI''} \<longrightarrow>
        fst (checkout_try example_platform example_connection ?d ob w0) \<noteq> Inl KeyError"
    by (auto simp: example_objects_def checkout_try_def checkouters_def checkout_program_def
        download_abap_source_def open_w_def example_connection_def Let_def)
  have "stderr w' = stderr example_world
        @ map (\<lambda>ob. ''Unsupported object: '' @ obj_typ ob @ '' '' @ obj_name ob)
            (filter (\<lambda>ob. obj_typ ob \<notin> {''PROG/P'', ''CLAS/OC'', ''INTF/OI''}) example_objects)"
    using inst[where objs = example_objects and w' = w', THEN conjunct2, THEN conjunct2,
        THEN conjunct2, THEN conjunct2, THEN conjunct2, THEN conjunct2, THEN conjunct1]
      nokey run
    by blast
  then have "stderr w' = [''Unsupported object: TABL/DT ZTAB'']"
    by (simp add: example_world_def example_objects_def)
  then have r8: "\<exists>w'. ?run = (Inr (), w') \<and> stderr w' = [''Unsupported object: TABL/DT ZTAB'']"
    using run by blast
  show ?thesis using r1 r2 r3 r4 r5 r6 r7 r8 by (intro conjI)
qed


section \<open>Failures of an exporter\<close>

text \<open>
  C2. The \<open>except KeyError\<close> handler encloses the call of the exporter as well as the
  dictionary lookup. For a program whose source read raises \<open>KeyError\<close>, the exporter
  fails with \<open>KeyError\<close>, yet \<open>checkout_objects\<close> returns normally and reports the program
  as an unsupported object.
\<close>

theorem checkout_objects_swallows_keyerror:
  "fst (checkout_program example_platform keyerror_connection ''ZPROG'' (Some ''/home'')
        example_world) = Inl KeyError
   \<and> fst (checkout_objects example_platform keyerror_connection
          [\<lparr>obj_typ = ''PROG/P'', obj_name = ''ZPROG''\<rparr>] (Some ''/home'') example_world) = Inr ()
   \<and> stderr (snd (checkout_objects example_platform keyerror_connection
          [\<lparr>obj_typ = ''PROG/P'', obj_name = ''ZPROG''\<rparr>] (Some ''/home'') example_world))
       = [''Unsupported object: PROG/P ZPROG'']"
  by code_simp

text \<open>Every other failure of an exporter ends the loop with that failure, in the world
  the exporter left.\<close>

theorem exporter_failure_propagates:
  assumes "checkout_try pf conn d obj w = (Inl e, w1)" and "e \<noteq> KeyError"
  shows "checkout_object pf conn d obj w = (Inl e, w1)
     \<and> checkout_loop pf conn d (obj # objs) w = (Inl e, w1)"
  using assms by (simp add: checkout_object_def)

theorem exporter_failure_propagates_witness:
  "checkout_loop example_platform example_connection (Some ''/home'')
      [\<lparr>obj_typ = ''CLAS/OC'', obj_name = ''ZCL_NONE''\<rparr>,
       \<lparr>obj_typ = ''PROG/P'', obj_name = ''ZPROG''\<rparr>] example_world
     = (Inl (RemoteError ''not found''), example_world)"
proof -
  have t: "checkout_try example_platform example_connection (Some ''/home'')
      \<lparr>obj_typ = ''CLAS/OC'', obj_name = ''ZCL_NONE''\<rparr> example_world
     = (Inl (RemoteError ''not found''), example_world)"
    by (simp add: checkout_try_def checkouters_def checkout_class_def example_connection_def)
  show ?thesis
    using exporter_failure_propagates[OF t, THEN conjunct2] by simp
qed

section \<open>Segments that start with the separator\<close>

lemma startswith_sep_lower: "startswith_sep s \<Longrightarrow> startswith_sep (lower s)"
proof -
  have "lower_char (CHR ''/'') = CHR ''/''" by code_simp
  moreover assume "startswith_sep s"
  ultimately show ?thesis
    by (cases s) (auto simp: startswith_sep_def lower_def)
qed

text \<open>A package name that starts with the separator (a name with a namespace prefix)
  replaces the base directory: \<open>os.path.join\<close> drops what stands before an absolute
  component.\<close>

theorem package_destdir_absolute_segment:
  assumes "startswith_sep seg"
  shows "package_destdir w base [seg] = lower seg"
  using startswith_sep_lower[OF assms] by (simp add: package_destdir_def path_join_def)

theorem package_destdir_absolute_segment_witness:
  "package_destdir example_world ''/home/repo/src'' [''/NS/PKG''] = ''/ns/pkg''"
proof -
  have s: "startswith_sep ''/NS/PKG''" by code_simp
  have l: "lower ''/NS/PKG'' = ''/ns/pkg''" by code_simp
  show ?thesis using package_destdir_absolute_segment[OF s] by (simp only: l)
qed

end
